theory Spec2Isabelle
  imports Main
begin

section \<open>Profile aggregate (ProfileContext)\<close>

text \<open>
  The profile store of the candidate portal keeps one \<open>ProfileData\<close> object, or null
  before the first load, together with the \<open>isLoading\<close> flag. Optional fields of the
  TypeScript interface are options; the three preference enums are datatypes.
\<close>

datatype stage_pref = Neutral | Preferred | Avoid

datatype remote_pref = Remote | Hybrid | Office | Flexible

datatype employment = FullTime | PartTime | Contract | Internship

record CompanyStagePreferences =
  early_stage :: stage_pref
  late_stage :: stage_pref
  enterprise :: stage_pref

record Resume =
  file_url :: string
  file_name :: string
  upload_date :: string

record ProfileData =
  id' :: string
  full_name :: string
  email :: string
  avatar_url :: "string option"
  phone_number :: "string option"
  location :: "string option"
  title :: "string option"
  bio :: "string option"
  linkedin_url :: "string option"
  github_url :: "string option"
  website_url :: "string option"
  resume_url :: "string option"
  company_stage_preferences :: CompanyStagePreferences
  locations :: "string list"
  remote_preference :: remote_pref
  graduation_date :: "string option"
  employment_type :: employment
  selected_roles :: "string list"
  resume :: "Resume option"
  onboarding_completed :: bool
  completed_steps :: "string list"

definition initialCompanyStagePreferences :: CompanyStagePreferences where
  "initialCompanyStagePreferences =
     \<lparr>early_stage = Neutral, late_stage = Neutral, enterprise = Neutral\<rparr>"

definition initialProfileData :: ProfileData where
  "initialProfileData =
     \<lparr>id' = [], full_name = [], email = [],
      avatar_url = None, phone_number = None, location = None, title = None, bio = None,
      linkedin_url = None, github_url = None, website_url = None, resume_url = None,
      company_stage_preferences = initialCompanyStagePreferences,
      locations = [], remote_preference = Flexible, graduation_date = None,
      employment_type = FullTime, selected_roles = [], resume = None,
      onboarding_completed = False, completed_steps = []\<rparr>"

text \<open>
  \<open>isOnboardingComplete\<close> is a memo of \<open>profileData\<close> and \<open>isLoading\<close>: false while
  loading or without data, true on the explicit flag, otherwise the minimum-requirements
  test on \<open>selected_roles\<close> and \<open>completed_steps\<close>.
\<close>

definition hasMinimumRequirements :: "ProfileData \<Rightarrow> bool" where
  "hasMinimumRequirements p \<longleftrightarrow>
     length (selected_roles p) > 0 \<and> length (completed_steps p) \<ge> 2"

definition isOnboardingComplete :: "bool \<Rightarrow> ProfileData option \<Rightarrow> bool" where
  "isOnboardingComplete isLoading profileData =
     (case profileData of
        None \<Rightarrow> False
      | Some p \<Rightarrow>
          if isLoading then False
          else if onboarding_completed p = True then True
          else hasMinimumRequirements p)"

text \<open>
  The store's local operations return the new value of the \<open>profileData\<close> state and the
  list of remote tables they wrote to. \<open>completeStep\<close> only calls \<open>setProfileData\<close>, and
  does nothing on a null aggregate.
\<close>

datatype table = Profiles | UserPreferences | UserOnboarding

definition completeStep :: "ProfileData option \<Rightarrow> string \<Rightarrow> ProfileData option \<times> table list" where
  "completeStep profileData step =
     (case profileData of
        None \<Rightarrow> (None, [])
      | Some p \<Rightarrow>
          if step \<notin> set (completed_steps p)
          then (Some (p\<lparr>completed_steps := completed_steps p @ [step]\<rparr>), [])
          else (Some p, []))"


section \<open>Tier classifier (TieredProfileSection)\<close>

text \<open>
  \<open>FieldTier\<close> is a numeric TypeScript enum, so at run time a field's tier is a number,
  or \<open>undefined\<close> when the field object lacks it. A section shows the fields that pass
  the filter of \<open>visibleFields\<close>; its callback is named \<open>isVisible\<close> here. The mode is
  the forced mode when one is given, the theme's mode otherwise. The React node of a field
  is kept abstract.
\<close>

datatype mode = Onboarding | Profile

datatype tier = Num int | Undefined

definition ESSENTIAL :: tier where "ESSENTIAL = Num 1"
definition IMPORTANT :: tier where "IMPORTANT = Num 2"
definition COMPREHENSIVE :: tier where "COMPREHENSIVE = Num 3"

record 'c TieredField =
  field_id :: string
  tier :: tier
  component :: 'c
  label :: "string option"
  required :: "bool option"

definition currentMode :: "mode option \<Rightarrow> mode \<Rightarrow> mode" where
  "currentMode forceMode m = (case forceMode of Some f \<Rightarrow> f | None \<Rightarrow> m)"

definition isVisible :: "mode \<Rightarrow> 'c TieredField \<Rightarrow> bool" where
  "isVisible cm field =
     (if cm = Onboarding then tier field = ESSENTIAL else True)"

definition visibleFields :: "mode option \<Rightarrow> mode \<Rightarrow> 'c TieredField list \<Rightarrow> 'c TieredField list" where
  "visibleFields forceMode m fs = filter (isVisible (currentMode forceMode m)) fs"


section \<open>Section orchestrator (UnifiedProfileExperience)\<close>

text \<open>
  The orchestrator keeps the index of the current step and the id of the active section
  next to its saving, validity and message flags. \<open>profileSections\<close> is the static list of
  steps; the React component of a section is left out. An array read outside the array is
  \<open>undefined\<close>, and \<open>findIndex\<close> answers \<open>-1\<close> when nothing matches, so indices are
  integers.
\<close>

record Section =
  section_id :: string
  section_title :: string
  section_required :: "bool option"

definition profileSections :: "Section list" where
  "profileSections =
    [\<lparr>section_id = ''welcome'', section_title = ''Welcome'', section_required = None\<rparr>,
     \<lparr>section_id = ''personal'', section_title = ''Personal Information'', section_required = Some True\<rparr>,
     \<lparr>section_id = ''roles'', section_title = ''Roles & Skills'', section_required = Some True\<rparr>,
     \<lparr>section_id = ''preferences'', section_title = ''Preferences'', section_required = Some False\<rparr>,
     \<lparr>section_id = ''education'', section_title = ''Education'', section_required = Some False\<rparr>,
     \<lparr>section_id = ''resume'', section_title = ''Resume'', section_required = Some False\<rparr>,
     \<lparr>section_id = ''complete'', section_title = ''Complete'', section_required = None\<rparr>]"

record Nav =
  currentStep :: int
  activeSection :: string
  isSaving :: bool
  showWelcome :: bool
  saveSuccessMessage :: string
  isFormValid :: bool
  hasAttemptedContinue :: bool

definition initialNav :: Nav where
  "initialNav = \<lparr>currentStep = 0, activeSection = ''welcome'', isSaving = False,
     showWelcome = True, saveSuccessMessage = [], isFormValid = False,
     hasAttemptedContinue = False\<rparr>"

definition at_index :: "'a list \<Rightarrow> int \<Rightarrow> 'a option" where
  "at_index xs i = (if 0 \<le> i \<and> i < int (length xs) then Some (xs ! nat i) else None)"

fun findIndex :: "('a \<Rightarrow> bool) \<Rightarrow> 'a list \<Rightarrow> int" where
  "findIndex P [] = - 1"
| "findIndex P (x # xs) =
     (if P x then 0 else (let r = findIndex P xs in if r = - 1 then - 1 else r + 1))"

definition canContinue :: "Nav \<Rightarrow> bool" where
  "canContinue nav =
     (if isSaving nav then False
      else case at_index profileSections (currentStep nav) of
        None \<Rightarrow> False
      | Some currentSection \<Rightarrow>
          if section_id currentSection = ''welcome'' \<or> section_id currentSection = ''complete''
          then True
          else if section_required currentSection = Some True then isFormValid nav
          else True)"

text \<open>
  A click on a sidebar entry is ignored when it lands on a child element other than the
  entry's \<open>SPAN\<close>. Otherwise the jump is taken in profile mode, or when the section is
  among the completed steps, and only if the section is not the active one already.
\<close>

record ClickEvent =
  targetIsCurrentTarget :: bool
  targetTagName :: string

definition handleSectionClick ::
  "mode \<Rightarrow> ProfileData option \<Rightarrow> string \<Rightarrow> ClickEvent \<Rightarrow> Nav \<Rightarrow> Nav" where
  "handleSectionClick m profileData sectionId e nav =
     (if \<not> targetIsCurrentTarget e \<and> targetTagName e \<noteq> ''SPAN'' then nav
      else if m = Profile \<or>
              (case profileData of None \<Rightarrow> False
               | Some p \<Rightarrow> sectionId \<in> set (completed_steps p))
      then (if activeSection nav \<noteq> sectionId
            then nav\<lparr>activeSection := sectionId,
                     currentStep := findIndex (\<lambda>s. section_id s = sectionId) profileSections\<rparr>
            else nav)
      else nav)"

text \<open>
  \<open>handleNext\<close> is modelled by the sequence of calls it makes: state setters of the
  orchestrator, \<open>updateProfile\<close> and \<open>saveProfile\<close> of the store, local-storage
  removals and the redirect. \<open>saveRejects k\<close> says whether the \<open>k\<close>-th \<open>saveProfile\<close> call
  of the handler rejects; reading \<open>completed_steps\<close> of a null aggregate throws into the
  outer \<open>catch\<close>. The \<open>finally\<close> block resets \<open>isSaving\<close> on every path. Console
  output and the blur of a focused input of the personal form are left out.
\<close>

datatype patch = PatchCompletedSteps "string list" | PatchOnboardingCompleted bool

datatype action =
    SetHasAttemptedContinue bool
  | SetIsSaving bool
  | SaveProfile
  | UpdateProfile patch
  | SetSaveSuccessMessage string
  | SetCurrentStep int
  | SetActiveSection string
  | RemoveItem string
  | GoToDashboard

definition failedToSave :: string where
  "failedToSave = ''Failed to save changes. Please try again.''"

definition savedWithError :: string where
  "savedWithError = ''Changes saved but there was an error updating some information.''"

definition handleNext :: "Nav \<Rightarrow> ProfileData option \<Rightarrow> (nat \<Rightarrow> bool) \<Rightarrow> action list" where
  "handleNext nav profileData saveRejects =
     SetHasAttemptedContinue True #
     (if \<not> canContinue nav then []
      else
        SetIsSaving True #
        (let personal = (activeSection nav = ''personal'');
             k = (if personal then 1 else 0 :: nat)
         in if personal \<and> saveRejects 0
            then [SaveProfile, SetSaveSuccessMessage failedToSave]
            else
              (if personal then [SaveProfile] else []) @
              (case profileData of
                 None \<Rightarrow> [SetSaveSuccessMessage failedToSave]
               | Some p \<Rightarrow>
                   (if activeSection nav \<notin> set (completed_steps p)
                    then [UpdateProfile
                            (PatchCompletedSteps (completed_steps p @ [activeSection nav]))]
                    else []) @
                   (if currentStep nav = int (length profileSections) - 1
                    then
                      UpdateProfile (PatchOnboardingCompleted True) # SaveProfile #
                      (if saveRejects k then [SetSaveSuccessMessage failedToSave]
                       else [RemoveItem ''force_onboarding'',
                             RemoveItem ''force_onboarding_timestamp'',
                             GoToDashboard])
                    else
                      (case at_index profileSections (currentStep nav + 1) of
                         None \<Rightarrow> [SetSaveSuccessMessage failedToSave]
                       | Some nextSection \<Rightarrow>
                           [SetCurrentStep (currentStep nav + 1),
                            SetActiveSection (section_id nextSection),
                            SetHasAttemptedContinue False,
                            SaveProfile,
                            SetSaveSuccessMessage
                              (if saveRejects k then savedWithError else [])])))) @
        [SetIsSaving False])"

text \<open>\<open>precedes a b tr\<close>: \<open>b\<close> occurs in \<open>tr\<close> after the first occurrence of \<open>a\<close>.\<close>

fun precedes :: "'a \<Rightarrow> 'a \<Rightarrow> 'a list \<Rightarrow> bool" where
  "precedes a b [] = False"
| "precedes a b (x # xs) = (if x = a then b \<in> set xs else precedes a b xs)"


section \<open>Personal-information validator (TieredPersonalInfo)\<close>

text \<open>
  The validator reads the component's own \<open>fullName\<close>, \<open>email\<close> and \<open>phone\<close> strings
  (\<open>email'\<close> below, since \<open>email\<close> names a field of the aggregate).
  JavaScript strings are sequences of UTF-16 code units, and both \<open>trim\<close> and the regular
  expressions look at single code units, so these strings are lists of code-unit numbers;
  \<open>js\<close> gives the code units of an ASCII literal.
\<close>

type_synonym jsstring = "nat list"

definition js :: "string \<Rightarrow> jsstring" where
  "js s = map of_char s"

text \<open>
  White space and line terminators of ECMAScript: what \<open>trim\<close> strips and what the class
  escape \<open>\s\<close> matches. \<open>\d\<close> is the ASCII digits.
\<close>

definition isWhiteSpace :: "nat \<Rightarrow> bool" where
  "isWhiteSpace c \<longleftrightarrow>
     c = 0x09 \<or> c = 0x0A \<or> c = 0x0B \<or> c = 0x0C \<or> c = 0x0D \<or> c = 0x20 \<or>
     c = 0xA0 \<or> c = 0x1680 \<or> (0x2000 \<le> c \<and> c \<le> 0x200A) \<or>
     c = 0x2028 \<or> c = 0x2029 \<or> c = 0x202F \<or> c = 0x205F \<or> c = 0x3000 \<or>
     c = 0xFEFF"

definition isDigit :: "nat \<Rightarrow> bool" where
  "isDigit c \<longleftrightarrow> 0x30 \<le> c \<and> c \<le> 0x39"

definition trim :: "jsstring \<Rightarrow> jsstring" where
  "trim s = rev (dropWhile isWhiteSpace (rev (dropWhile isWhiteSpace s)))"

text \<open>
  The two patterns use single-character classes, sequencing, \<open>?\<close> and the quantifiers
  \<open>+\<close> and \<open>{10,}\<close> on a class. \<open>matches r s k\<close> is a backtracking matcher: it tries to
  match \<open>r\<close> at the front of \<open>s\<close>, greedily, and hands the rest to the continuation \<open>k\<close>.
  \<open>test\<close> is \<open>RegExp.prototype.test\<close> for a pattern anchored by \<open>^\<close> and \<open>$\<close> without
  flags: the whole string has to match.
\<close>

datatype regex =
    Class "nat \<Rightarrow> bool"
  | Seq regex regex
  | Optional regex
  | AtLeast nat "nat \<Rightarrow> bool"

fun atLeast_match :: "nat \<Rightarrow> (nat \<Rightarrow> bool) \<Rightarrow> jsstring \<Rightarrow> (jsstring \<Rightarrow> bool) \<Rightarrow> bool" where
  "atLeast_match n P [] k = (n = 0 \<and> k [])"
| "atLeast_match n P (c # cs) k =
     ((P c \<and> atLeast_match (n - 1) P cs k) \<or> (n = 0 \<and> k (c # cs)))"

fun matches :: "regex \<Rightarrow> jsstring \<Rightarrow> (jsstring \<Rightarrow> bool) \<Rightarrow> bool" where
  "matches (Class P) s k = (case s of [] \<Rightarrow> False | c # cs \<Rightarrow> P c \<and> k cs)"
| "matches (Seq r1 r2) s k = matches r1 s (\<lambda>rest. matches r2 rest k)"
| "matches (Optional r) s k = (matches r s k \<or> k s)"
| "matches (AtLeast n P) s k = atLeast_match n P s k"

definition test :: "regex \<Rightarrow> jsstring \<Rightarrow> bool" where
  "test r s = matches r s (\<lambda>rest. rest = [])"

text \<open>The email pattern \<^verbatim>\<open>/^[^\s@]+@[^\s@]+\.[^\s@]+$/\<close>.\<close>

definition notSpaceOrAt :: "nat \<Rightarrow> bool" where
  "notSpaceOrAt c \<longleftrightarrow> \<not> (isWhiteSpace c \<or> c = of_char CHR ''@'')"

definition emailRegex :: regex where
  "emailRegex =
     Seq (AtLeast 1 notSpaceOrAt)
       (Seq (Class (\<lambda>c. c = of_char CHR ''@''))
         (Seq (AtLeast 1 notSpaceOrAt)
           (Seq (Class (\<lambda>c. c = of_char CHR ''.''))
             (AtLeast 1 notSpaceOrAt))))"

text \<open>The phone pattern \<^verbatim>\<open>/^\+?[\d\s-()]{10,}$/\<close>.\<close>

definition phoneClass :: "nat \<Rightarrow> bool" where
  "phoneClass c \<longleftrightarrow>
     isDigit c \<or> isWhiteSpace c \<or> c = of_char CHR ''-'' \<or>
     c = of_char CHR ''('' \<or> c = of_char CHR '')''"

definition phoneRegex :: regex where
  "phoneRegex = Seq (Optional (Class (\<lambda>c. c = of_char CHR ''+''))) (AtLeast 10 phoneClass)"

text \<open>
  \<open>validateAndNotify\<close> computes the three checks, passes the result to the parent's
  \<open>onValidationChange\<close> callback when the component was given one, and returns it. The
  first component of the model's result is the value passed to the callback, if any.
\<close>

definition validateAndNotify ::
  "jsstring \<Rightarrow> jsstring \<Rightarrow> jsstring \<Rightarrow> bool \<Rightarrow> bool option \<times> bool" where
  "validateAndNotify fullName email' phone hasOnValidationChange =
     (let nameValid = (length (trim fullName) \<ge> 2);
          emailValid = test emailRegex email';
          phoneValid = (trim phone = [] \<or> test phoneRegex phone);
          isValidNow = (nameValid \<and> emailValid \<and> phoneValid)
      in (if hasOnValidationChange then Some isValidNow else None, isValidNow))"

text \<open>
  The strings a pattern denotes, as a set: the reference against which the matcher is
  checked below.
\<close>

fun lang :: "regex \<Rightarrow> jsstring set" where
  "lang (Class P) = {[c] | c. P c}"
| "lang (Seq r1 r2) = {u @ v | u v. u \<in> lang r1 \<and> v \<in> lang r2}"
| "lang (Optional r) = insert [] (lang r)"
| "lang (AtLeast n P) = {u. n \<le> length u \<and> (\<forall>x \<in> set u. P x)}"

text \<open>
  The shapes in the specification's words: an email is a local part, \<open>@\<close>, a domain
  and, after a dot, a top-level part, all three non-empty and free of white space and
  \<open>@\<close>; a phone is an optional \<open>+\<close> and then at least ten characters that are digits,
  white space, dashes or parentheses.
\<close>

definition email_shape :: "jsstring \<Rightarrow> bool" where
  "email_shape s \<longleftrightarrow>
     (\<exists>local domain tld.
        s = local @ [of_char CHR ''@''] @ domain @ [of_char CHR ''.''] @ tld \<and>
        local \<noteq> [] \<and> domain \<noteq> [] \<and> tld \<noteq> [] \<and>
        (\<forall>c \<in> set (local @ domain @ tld). \<not> isWhiteSpace c \<and> c \<noteq> of_char CHR ''@''))"

definition phone_shape :: "jsstring \<Rightarrow> bool" where
  "phone_shape s \<longleftrightarrow>
     (\<exists>plus body.
        s = plus @ body \<and> (plus = [] \<or> plus = [of_char CHR ''+'']) \<and>
        length body \<ge> 10 \<and> (\<forall>c \<in> set body. phoneClass c))"


section \<open>Remote store: load and save (ProfileContext)\<close>

text \<open>
  A call to the remote client is awaited: it resolves to a reply holding \<open>data\<close> and
  \<open>error\<close>, either of which may be null, or it rejects, which throws at the \<open>await\<close>.
  The error object carries the code the store looks at.
\<close>

datatype 'a awaited = Resolved 'a | Rejected

record PostgrestError =
  code :: string
  message :: string

record 'r Reply =
  data :: "'r option"
  error :: "PostgrestError option"

text \<open>The signed-in user and the rows of the three tables; every column may be null.\<close>

record User =
  user_id :: string
  user_email :: "string option"
  meta_full_name :: "string option"
  meta_avatar_url :: "string option"

record ProfilesRow =
  row_full_name :: "string option"
  row_email :: "string option"
  row_avatar_url :: "string option"
  row_phone_number :: "string option"
  row_location :: "string option"
  row_linkedin_url :: "string option"
  row_github_url :: "string option"
  row_website_url :: "string option"

record PreferencesRow =
  row_resume_url :: "string option"
  row_company_stage_preferences :: "CompanyStagePreferences option"
  row_locations :: "string list option"
  row_remote_preference :: "remote_pref option"
  row_graduation_date :: "string option"
  row_employment_type :: "employment option"

record OnboardingRow =
  row_selected_roles :: "string list option"
  row_completed :: "bool option"
  row_completed_steps :: "string list option"

text \<open>
  \<open>a || b\<close> on strings: null, undefined and the empty string are falsy. \<open>opt_field r f\<close> is
  the optional chaining \<open>r?.f\<close> on a row that may be null.
\<close>

definition or_str :: "string option \<Rightarrow> string \<Rightarrow> string" where
  "or_str a d = (case a of None \<Rightarrow> d | Some s \<Rightarrow> if s = [] then d else s)"

definition or_val :: "'a option \<Rightarrow> 'a \<Rightarrow> 'a" where
  "or_val a d = (case a of None \<Rightarrow> d | Some v \<Rightarrow> v)"

definition opt_field :: "'r option \<Rightarrow> ('r \<Rightarrow> 'a option) \<Rightarrow> 'a option" where
  "opt_field r f = (case r of None \<Rightarrow> None | Some x \<Rightarrow> f x)"

definition combinedData ::
  "User \<Rightarrow> ProfilesRow option \<Rightarrow> PreferencesRow option \<Rightarrow> OnboardingRow option \<Rightarrow> ProfileData" where
  "combinedData user profileRow preferencesRow onboardingRow =
     initialProfileData
       \<lparr>id' := user_id user,
        full_name := or_str (opt_field profileRow row_full_name) (or_str (meta_full_name user) []),
        email := or_str (opt_field profileRow row_email) (or_str (user_email user) []),
        avatar_url :=
          Some (or_str (opt_field profileRow row_avatar_url) (or_str (meta_avatar_url user) [])),
        phone_number := Some (or_str (opt_field profileRow row_phone_number) []),
        location := Some (or_str (opt_field profileRow row_location) []),
        linkedin_url := Some (or_str (opt_field profileRow row_linkedin_url) []),
        github_url := Some (or_str (opt_field profileRow row_github_url) []),
        website_url := Some (or_str (opt_field profileRow row_website_url) []),
        resume_url := Some (or_str (opt_field preferencesRow row_resume_url) []),
        company_stage_preferences :=
          or_val (opt_field preferencesRow row_company_stage_preferences)
            (company_stage_preferences initialProfileData),
        locations := or_val (opt_field preferencesRow row_locations) [],
        remote_preference := or_val (opt_field preferencesRow row_remote_preference) Flexible,
        graduation_date :=
          (case opt_field preferencesRow row_graduation_date of
             None \<Rightarrow> None | Some d \<Rightarrow> if d = [] then None else Some d),
        employment_type := or_val (opt_field preferencesRow row_employment_type) FullTime,
        selected_roles := or_val (opt_field onboardingRow row_selected_roles) [],
        onboarding_completed := or_val (opt_field onboardingRow row_completed) False,
        completed_steps := or_val (opt_field onboardingRow row_completed_steps) []\<rparr>"

text \<open>
  The store's state, and what \<open>loadProfileData\<close> writes with \<open>console.error\<close>. The
  completion-status record of the store is derived from the aggregate and is left out.
\<close>

record Store =
  profileData :: "ProfileData option"
  isLoading :: bool

definition initialStore :: Store where
  "initialStore = \<lparr>profileData = None, isLoading = True\<rparr>"

datatype log_entry =
    ErrorLoadingProfile PostgrestError
  | ErrorLoadingPreferences PostgrestError
  | ErrorLoadingOnboarding PostgrestError
  | ErrorInLoadProfileData

record LoadEnv =
  getUser :: "User option awaited"
  selectProfile :: "ProfilesRow Reply awaited"
  selectPreferences :: "PreferencesRow Reply awaited"
  selectOnboarding :: "OnboardingRow Reply awaited"

definition PGRST116 :: string where
  "PGRST116 = ''PGRST116''"

text \<open>
  \<open>loadProfileData\<close>: a rejected call lands in the \<open>catch\<close> block, which logs; the
  \<open>finally\<close> block clears \<open>isLoading\<close> on every path. Only an error of the profile query
  whose code is not \<open>PGRST116\<close> returns early; errors of the other two queries are logged
  and the merge goes on with whatever \<open>data\<close> they carry.
\<close>

definition loadRest ::
  "LoadEnv \<Rightarrow> Store \<Rightarrow> User \<Rightarrow> ProfilesRow Reply \<Rightarrow> Store \<times> log_entry list" where
  "loadRest env st user profileReply =
     (case selectPreferences env of
        Rejected \<Rightarrow> (st\<lparr>isLoading := False\<rparr>, [ErrorInLoadProfileData])
      | Resolved preferencesReply \<Rightarrow>
          (let log1 = (case error preferencesReply of
                         Some preferencesError \<Rightarrow> [ErrorLoadingPreferences preferencesError]
                       | None \<Rightarrow> [])
           in case selectOnboarding env of
                Rejected \<Rightarrow> (st\<lparr>isLoading := False\<rparr>, log1 @ [ErrorInLoadProfileData])
              | Resolved onboardingReply \<Rightarrow>
                  (let log2 = (case error onboardingReply of
                                 Some onboardingError \<Rightarrow>
                                   if code onboardingError \<noteq> PGRST116
                                   then [ErrorLoadingOnboarding onboardingError] else []
                               | None \<Rightarrow> [])
                   in (\<lparr>profileData =
                          Some (combinedData user (data profileReply) (data preferencesReply)
                                  (data onboardingReply)),
                        isLoading = False\<rparr>,
                       log1 @ log2))))"

definition loadProfileData :: "LoadEnv \<Rightarrow> Store \<Rightarrow> Store \<times> log_entry list" where
  "loadProfileData env st =
     (case getUser env of
        Rejected \<Rightarrow> (st\<lparr>isLoading := False\<rparr>, [ErrorInLoadProfileData])
      | Resolved None \<Rightarrow> (st\<lparr>isLoading := False\<rparr>, [])
      | Resolved (Some user) \<Rightarrow>
          (case selectProfile env of
             Rejected \<Rightarrow> (st\<lparr>isLoading := False\<rparr>, [ErrorInLoadProfileData])
           | Resolved profileReply \<Rightarrow>
               (case error profileReply of
                  Some profileError \<Rightarrow>
                    if code profileError \<noteq> PGRST116
                    then (st\<lparr>isLoading := False\<rparr>, [ErrorLoadingProfile profileError])
                    else loadRest env st user profileReply
                | None \<Rightarrow> loadRest env st user profileReply)))"

text \<open>
  \<open>saveProfile\<close> builds one payload per table from the aggregate of its render, with
  \<open>completed\<close> taken from the derived signal of the same render. Each upsert resolves to
  its \<open>error\<close>, or rejects. \<open>saveBody\<close> is the \<open>try\<close> block: the three upserts in
  order, each lowering \<open>saveSuccessful\<close> on an error without stopping, then the
  verification read, whose own failure is caught on the spot. A rejected upsert leaves the
  block; the \<open>catch\<close> of \<open>saveProfile\<close> turns that into the result \<open>false\<close>. On a null
  aggregate nothing is sent and the result is \<open>undefined\<close>.
\<close>

record ProfilePayload =
  pp_id :: string
  pp_full_name :: string
  pp_email :: string
  pp_avatar_url :: "string option"
  pp_linkedin_url :: "string option"
  pp_github_url :: "string option"
  pp_website_url :: "string option"
  pp_phone_number :: "string option"
  pp_location :: "string option"
  pp_title :: "string option"
  pp_bio :: "string option"

record PreferencesPayload =
  fp_user_id :: string
  fp_company_stage_preferences :: CompanyStagePreferences
  fp_locations :: "string list"
  fp_remote_preference :: remote_pref
  fp_graduation_date :: "string option"
  fp_employment_type :: employment
  fp_resume_url :: "string option"

record OnboardingPayload =
  op_user_id :: string
  op_selected_roles :: "string list"
  op_completed_steps :: "string list"
  op_completed :: bool

datatype remote_call =
    UpsertProfiles ProfilePayload
  | UpsertPreferences PreferencesPayload
  | UpsertOnboarding OnboardingPayload
  | SelectSavedProfile string

fun table_of :: "remote_call \<Rightarrow> table" where
  "table_of (UpsertProfiles _) = Profiles"
| "table_of (UpsertPreferences _) = UserPreferences"
| "table_of (UpsertOnboarding _) = UserOnboarding"
| "table_of (SelectSavedProfile _) = Profiles"

fun is_upsert :: "remote_call \<Rightarrow> bool" where
  "is_upsert (SelectSavedProfile _) = False"
| "is_upsert _ = True"

definition profilePayload :: "ProfileData \<Rightarrow> ProfilePayload" where
  "profilePayload p =
     \<lparr>pp_id = id' p, pp_full_name = full_name p, pp_email = email p,
      pp_avatar_url = avatar_url p, pp_linkedin_url = linkedin_url p,
      pp_github_url = github_url p, pp_website_url = website_url p,
      pp_phone_number = phone_number p, pp_location = location p,
      pp_title = title p, pp_bio = bio p\<rparr>"

definition preferencesPayload :: "ProfileData \<Rightarrow> PreferencesPayload" where
  "preferencesPayload p =
     \<lparr>fp_user_id = id' p,
      fp_company_stage_preferences = company_stage_preferences p,
      fp_locations = locations p, fp_remote_preference = remote_preference p,
      fp_graduation_date = graduation_date p, fp_employment_type = employment_type p,
      fp_resume_url = resume_url p\<rparr>"

definition onboardingPayload :: "bool \<Rightarrow> ProfileData \<Rightarrow> OnboardingPayload" where
  "onboardingPayload loading p =
     \<lparr>op_user_id = id' p, op_selected_roles = selected_roles p,
      op_completed_steps = completed_steps p,
      op_completed = isOnboardingComplete loading (Some p)\<rparr>"

record SaveEnv =
  upsertProfiles :: "PostgrestError option awaited"
  upsertPreferences :: "PostgrestError option awaited"
  upsertOnboarding :: "PostgrestError option awaited"
  selectSaved :: "ProfilesRow Reply awaited"

datatype 'a completion = Returns 'a | Throws

definition saveBody :: "SaveEnv \<Rightarrow> bool \<Rightarrow> ProfileData \<Rightarrow> remote_call list \<times> bool completion" where
  "saveBody env loading p =
     (let calls1 = [UpsertProfiles (profilePayload p)] in
      case upsertProfiles env of
        Rejected \<Rightarrow> (calls1, Throws)
      | Resolved profileError \<Rightarrow>
          (let saveSuccessful1 = (if profileError \<noteq> None then False else True);
               calls2 = calls1 @ [UpsertPreferences (preferencesPayload p)] in
           case upsertPreferences env of
             Rejected \<Rightarrow> (calls2, Throws)
           | Resolved preferencesError \<Rightarrow>
               (let saveSuccessful2 = (if preferencesError \<noteq> None then False else saveSuccessful1);
                    calls3 = calls2 @ [UpsertOnboarding (onboardingPayload loading p)] in
                case upsertOnboarding env of
                  Rejected \<Rightarrow> (calls3, Throws)
                | Resolved onboardingError \<Rightarrow>
                    (let saveSuccessful3 =
                           (if onboardingError \<noteq> None then False else saveSuccessful2)
                     in (calls3 @ [SelectSavedProfile (id' p)], Returns saveSuccessful3)))))"

record SaveResult =
  calls :: "remote_call list"
  returned :: "bool option completion"
  isLoadingAfter :: bool

definition saveProfile :: "SaveEnv \<Rightarrow> Store \<Rightarrow> SaveResult" where
  "saveProfile env st =
     (case profileData st of
        None \<Rightarrow> \<lparr>calls = [], returned = Returns None, isLoadingAfter = isLoading st\<rparr>
      | Some p \<Rightarrow>
          (case saveBody env (isLoading st) p of
             (cs, Returns saveSuccessful) \<Rightarrow>
               \<lparr>calls = cs, returned = Returns (Some saveSuccessful), isLoadingAfter = False\<rparr>
           | (cs, Throws) \<Rightarrow>
               \<lparr>calls = cs, returned = Returns (Some False), isLoadingAfter = False\<rparr>))"


text \<open>Concrete replies and environments used to run the store below.\<close>

definition serverError :: PostgrestError where
  "serverError = \<lparr>code = ''500'', message = ''internal error''\<rparr>"

definition loadedStore :: Store where
  "loadedStore = \<lparr>profileData = Some initialProfileData, isLoading = False\<rparr>"

definition preferencesFail :: SaveEnv where
  "preferencesFail =
     \<lparr>upsertProfiles = Resolved None, upsertPreferences = Resolved (Some serverError),
      upsertOnboarding = Resolved None,
      selectSaved = Resolved \<lparr>data = None, error = None\<rparr>\<rparr>"

definition profilesRejects :: SaveEnv where
  "profilesRejects =
     \<lparr>upsertProfiles = Rejected, upsertPreferences = Resolved None,
      upsertOnboarding = Resolved None,
      selectSaved = Resolved \<lparr>data = None, error = None\<rparr>\<rparr>"

definition freshUser :: User where
  "freshUser = \<lparr>user_id = ''u-1'', user_email = Some ''ada@x.com'',
     meta_full_name = None, meta_avatar_url = None\<rparr>"

definition notFound :: PostgrestError where
  "notFound = \<lparr>code = PGRST116, message = ''no rows returned''\<rparr>"

definition onboardedRow :: OnboardingRow where
  "onboardedRow = \<lparr>row_selected_roles = Some [''frontend''], row_completed = Some True,
     row_completed_steps = Some [''welcome'', ''personal'', ''roles'']\<rparr>"

definition freshLoad :: LoadEnv where
  "freshLoad =
     \<lparr>getUser = Resolved (Some freshUser),
      selectProfile = Resolved \<lparr>data = None, error = Some notFound\<rparr>,
      selectPreferences = Resolved \<lparr>data = None, error = None\<rparr>,
      selectOnboarding = Resolved \<lparr>data = None, error = None\<rparr>\<rparr>"

definition profileErrorLoad :: LoadEnv where
  "profileErrorLoad =
     \<lparr>getUser = Resolved (Some freshUser),
      selectProfile = Resolved \<lparr>data = None, error = Some serverError\<rparr>,
      selectPreferences = Resolved \<lparr>data = None, error = None\<rparr>,
      selectOnboarding = Resolved \<lparr>data = Some onboardedRow, error = None\<rparr>\<rparr>"

definition preferencesErrorLoad :: LoadEnv where
  "preferencesErrorLoad =
     \<lparr>getUser = Resolved (Some freshUser),
      selectProfile = Resolved \<lparr>data = None, error = Some notFound\<rparr>,
      selectPreferences = Resolved \<lparr>data = None, error = Some serverError\<rparr>,
      selectOnboarding = Resolved \<lparr>data = Some onboardedRow, error = None\<rparr>\<rparr>"


section \<open>Authentication event queue (UserContext)\<close>

text \<open>
  The provider keeps the signed-in user, the session, the profile, the roles, the
  permissions and a loading flag as React state, and a few refs beside them. It
  serialises the identity provider's notifications through a queue held in a ref,
  guarded by the ref \<open>processingAuthEventRef\<close>. JavaScript runs a handler until its next
  \<open>await\<close>, so the model has one transition for each uninterrupted piece of code: the
  arrival of an event (the \<open>onAuthStateChange\<close> callback, and likewise the push of the
  initial session), the resumption of a handler that was waiting for \<open>loadUserData\<close>,
  and the cleanup at unmount.

  The state fields carry the prefix \<open>auth\<close> (\<open>authUser\<close> is the \<open>user\<close> state and so on).
  Four history fields are added in order to state what happened: \<open>received\<close> lists the
  events the provider accepted, \<open>processed\<close> the events taken from the queue, both in
  order; \<open>history\<close> records where each handler of the drain begins and ends; \<open>inFlight\<close>
  holds the events whose handler is waiting, each with the answer of the guard of its
  \<open>loadUserData\<close> call.
\<close>

record Session =
  session_user :: "string option"

record AuthEvent =
  event :: string
  session :: "Session option"

record UserRole =
  role_id :: string
  role_name :: string

record UserProfile =
  up_id :: string
  up_full_name :: string
  up_email :: string
  up_created_at :: string
  up_updated_at :: string
  up_role :: "string option"
  up_avatar_url :: "string option"
  up_provider :: "string option"

datatype step = Begin AuthEvent | End AuthEvent

record Provider =
  authUser :: "string option"
  authSession :: "Session option"
  authProfile :: "UserProfile option"
  authRoles :: "UserRole list"
  authPermissions :: "string set"
  authIsLoading :: bool
  loadingRef :: bool
  mountedRef :: bool
  processingAuthEventRef :: bool
  authEventQueueRef :: "AuthEvent list"
  received :: "AuthEvent list"
  processed :: "AuthEvent list"
  history :: "step list"
  inFlight :: "(AuthEvent \<times> bool) list"

definition initialProvider :: Provider where
  "initialProvider =
     \<lparr>authUser = None, authSession = None, authProfile = None, authRoles = [],
      authPermissions = {}, authIsLoading = True, loadingRef = False,
      mountedRef = True, processingAuthEventRef = False, authEventQueueRef = [],
      received = [], processed = [], history = [], inFlight = []\<rparr>"

text \<open>\<open>session?.user || null\<close>, and \<open>resetStates\<close>, which writes only while mounted.\<close>

definition sessionUser :: "Session option \<Rightarrow> string option" where
  "sessionUser ss = (case ss of None \<Rightarrow> None | Some x \<Rightarrow> session_user x)"

definition resetStates :: "Provider \<Rightarrow> Provider" where
  "resetStates s =
     (if \<not> mountedRef s then s
      else s\<lparr>authUser := None, authSession := None, authProfile := None, authRoles := [],
             authPermissions := {}, authIsLoading := False, loadingRef := False\<rparr>)"

text \<open>
  \<open>loadUserData\<close> for a user that is present. Up to its first \<open>await\<close> it checks the
  mounted flag and its own guard \<open>loadingRef\<close>, then raises the guard and the loading
  flag and sets the default role and permission; \<open>loadUserDataStart\<close> also says whether
  the guard let the call in. What the call does after its remote reads is collapsed
  into one step, \<open>loadUserDataFinish\<close>: the profile, roles and permissions it ends up
  setting, which depend on the remote replies, are given by a \<open>LoadOutcome\<close>, and its
  \<open>finally\<close> block lowers the loading flag and the guard, all only while mounted. The
  ten-second safety timer is left out.
\<close>

definition defaultRole :: UserRole where
  "defaultRole = \<lparr>role_id = ''default'', role_name = ''user''\<rparr>"

definition loadUserDataStart :: "Provider \<Rightarrow> Provider \<times> bool" where
  "loadUserDataStart s =
     (if \<not> mountedRef s then (s, False)
      else if loadingRef s then (s, False)
      else (s\<lparr>loadingRef := True, authIsLoading := True, authRoles := [defaultRole],
              authPermissions := {''basic_access''}\<rparr>, True))"

record LoadOutcome =
  profileSet :: "UserProfile option"
  rolesSet :: "UserRole list option"
  permissionsSet :: "string set option"

definition loadUserDataFinish :: "LoadOutcome \<Rightarrow> Provider \<Rightarrow> Provider" where
  "loadUserDataFinish out s =
     (if \<not> mountedRef s then s
      else s\<lparr>authProfile := (case profileSet out of None \<Rightarrow> authProfile s | Some p \<Rightarrow> Some p),
             authRoles := (case rolesSet out of None \<Rightarrow> authRoles s | Some r \<Rightarrow> r),
             authPermissions :=
               (case permissionsSet out of None \<Rightarrow> authPermissions s | Some p \<Rightarrow> p),
             authIsLoading := False, loadingRef := False\<rparr>)"

text \<open>
  An event makes its handler wait exactly when it is a \<open>SIGNED_IN\<close> whose session has a
  user. \<open>handleNow\<close> is what the \<open>try\<close> block of \<open>processNextAuthEvent\<close> writes for an
  event before any \<open>await\<close>; for every event that does not wait this is all of it.
\<close>

definition awaitsLoad :: "AuthEvent \<Rightarrow> bool" where
  "awaitsLoad e \<longleftrightarrow> event e = ''SIGNED_IN'' \<and> sessionUser (session e) \<noteq> None"

definition handleNow :: "AuthEvent \<Rightarrow> Provider \<Rightarrow> Provider" where
  "handleNow e s =
     (if event e = ''SIGNED_IN''
      then s\<lparr>authSession := session e, authUser := sessionUser (session e)\<rparr>
      else if event e = ''SIGNED_OUT'' \<or> event e = ''USER_DELETED'' then resetStates s
      else if event e = ''TOKEN_REFRESHED'' then s\<lparr>authSession := session e\<rparr>
      else s)"

function processNextAuthEvent :: "Provider \<Rightarrow> Provider" where
  "processNextAuthEvent s =
     (if \<not> mountedRef s \<or> processingAuthEventRef s \<or> length (authEventQueueRef s) = 0
      then s
      else
        (case authEventQueueRef s of
           [] \<Rightarrow> s\<lparr>processingAuthEventRef := False\<rparr>
         | nextEvent # rest \<Rightarrow>
             (let s1 = s\<lparr>processingAuthEventRef := True, authEventQueueRef := rest,
                         processed := processed s @ [nextEvent],
                         history := history s @ [Begin nextEvent]\<rparr>;
                  s2 = handleNow nextEvent s1
              in if awaitsLoad nextEvent
                 then
                   (let s3 = fst (loadUserDataStart s2)
                    in s3\<lparr>inFlight :=
                             inFlight s3 @ [(nextEvent, snd (loadUserDataStart s2))]\<rparr>)
                 else
                   (let s3 = s2\<lparr>processingAuthEventRef := False,
                                 history := history s2 @ [End nextEvent]\<rparr>
                    in if length (authEventQueueRef s3) > 0
                       then processNextAuthEvent s3 else s3))))"
  by pat_completeness auto
termination
  by (relation "measure (\<lambda>s. length (authEventQueueRef s))")
     (auto simp: handleNow_def resetStates_def)

declare processNextAuthEvent.simps [simp del]

text \<open>
  The callback of the subscription. Before it queues the event it writes the session
  and the user for a \<open>SIGNED_IN\<close> and resets every state for a \<open>SIGNED_OUT\<close> or a
  \<open>USER_DELETED\<close>, whether or not another handler is waiting; \<open>immediateUpdate\<close> is that
  branch.
\<close>

definition immediateUpdate :: "AuthEvent \<Rightarrow> Provider \<Rightarrow> Provider" where
  "immediateUpdate e s =
     (if event e = ''SIGNED_IN''
      then s\<lparr>authSession := session e, authUser := sessionUser (session e)\<rparr>
      else if event e = ''SIGNED_OUT'' \<or> event e = ''USER_DELETED'' then resetStates s
      else s)"

definition onAuthStateChange :: "AuthEvent \<Rightarrow> Provider \<Rightarrow> Provider" where
  "onAuthStateChange e s =
     (if \<not> mountedRef s then s
      else
        (let s1 = immediateUpdate e s
         in processNextAuthEvent
              (s1\<lparr>authEventQueueRef := authEventQueueRef s1 @ [e],
                  received := received s1 @ [e]\<rparr>)))"

text \<open>
  The resumption of a waiting handler: the rest of its \<open>loadUserData\<close> call, if the
  guard had let it in, and then the \<open>finally\<close> block of \<open>processNextAuthEvent\<close>, which
  clears the flag and starts the next drain when the queue is not empty.
\<close>

definition resumeHandler :: "AuthEvent \<times> bool \<Rightarrow> LoadOutcome \<Rightarrow> Provider \<Rightarrow> Provider" where
  "resumeHandler w out s =
     (let s0 = (if snd w then loadUserDataFinish out s else s);
          s1 = s0\<lparr>inFlight := remove1 w (inFlight s0), processingAuthEventRef := False,
                   history := history s0 @ [End (fst w)]\<rparr>
      in if length (authEventQueueRef s1) > 0 then processNextAuthEvent s1 else s1)"

definition unmount :: "Provider \<Rightarrow> Provider" where
  "unmount s = s\<lparr>mountedRef := False, loadingRef := False, processingAuthEventRef := False,
                  authEventQueueRef := []\<rparr>"

inductive reachable :: "Provider \<Rightarrow> bool" where
  start: "reachable initialProvider"
| arrival: "reachable s \<Longrightarrow> reachable (onAuthStateChange e s)"
| resumption: "reachable s \<Longrightarrow> w \<in> set (inFlight s) \<Longrightarrow> reachable (resumeHandler w out s)"
| cleanup: "reachable s \<Longrightarrow> reachable (unmount s)"

text \<open>
  A history is \<open>serial\<close> when every handler ends before the next one begins; \<open>begun\<close>
  lists the events whose handler began, and \<open>waiting\<close> the event, if any, whose handler
  has begun and not ended.
\<close>

fun serial :: "step list \<Rightarrow> bool" where
  "serial [] = True"
| "serial [Begin e] = True"
| "serial (Begin e # End e' # h) = (e = e' \<and> serial h)"
| "serial _ = False"

fun begun :: "step list \<Rightarrow> AuthEvent list" where
  "begun [] = []"
| "begun (Begin e # h) = e # begun h"
| "begun (End e # h) = begun h"

fun waiting :: "step list \<Rightarrow> AuthEvent list" where
  "waiting [] = []"
| "waiting [Begin e] = [e]"
| "waiting (x # h) = waiting h"

text \<open>
  States of the provider: \<open>idle\<close> is mounted with no drain active; \<open>settled\<close> is mounted
  with the flag set exactly when a handler is waiting and nothing left in the queue when
  none is. \<open>queue_inv\<close> holds the facts about the history fields that every reachable
  state satisfies, mounted or not.
\<close>

definition coherent :: "Provider \<Rightarrow> bool" where
  "coherent s \<longleftrightarrow> serial (history s) \<and> begun (history s) = processed s \<and>
     map fst (inFlight s) = waiting (history s) \<and>
     (\<exists>rest. received s = processed s @ rest) \<and>
     (mountedRef s \<longrightarrow> processed s @ authEventQueueRef s = received s)"

definition idle :: "Provider \<Rightarrow> bool" where
  "idle s \<longleftrightarrow> mountedRef s \<and> \<not> processingAuthEventRef s \<and> inFlight s = [] \<and> coherent s"

definition settled :: "Provider \<Rightarrow> bool" where
  "settled s \<longleftrightarrow> mountedRef s \<and> coherent s \<and>
     (processingAuthEventRef s \<longleftrightarrow> inFlight s \<noteq> []) \<and>
     (inFlight s = [] \<longrightarrow> authEventQueueRef s = [])"

definition queue_inv :: "Provider \<Rightarrow> bool" where
  "queue_inv s \<longleftrightarrow> coherent s \<and>
     (mountedRef s \<longrightarrow> settled s) \<and>
     (\<not> mountedRef s \<longrightarrow> \<not> processingAuthEventRef s \<and> authEventQueueRef s = [])"

text \<open>
  A run: a sign-in arrives and waits for the user's data; a sign-out and a token refresh
  arrive meanwhile.
\<close>

definition signedIn :: AuthEvent where
  "signedIn = \<lparr>event = ''SIGNED_IN'', session = Some \<lparr>session_user = Some ''ada@x.com''\<rparr>\<rparr>"

definition tokenRefreshed :: AuthEvent where
  "tokenRefreshed =
     \<lparr>event = ''TOKEN_REFRESHED'', session = Some \<lparr>session_user = Some ''ada@x.com''\<rparr>\<rparr>"

definition signedOut :: AuthEvent where
  "signedOut = \<lparr>event = ''SIGNED_OUT'', session = None\<rparr>"

definition waitingProvider :: Provider where
  "waitingProvider = onAuthStateChange signedIn initialProvider"

definition busyProvider :: Provider where
  "busyProvider = onAuthStateChange tokenRefreshed (onAuthStateChange signedOut waitingProvider)"

definition noWrites :: LoadOutcome where
  "noWrites = \<lparr>profileSet = None, rolesSet = None, permissionsSet = None\<rparr>"


section \<open>Properties\<close>

subsection \<open>Profile store\<close>

text \<open>
  C1. On a loaded aggregate (not loading, data present) the derived signal is true exactly
  when the persisted flag is true, or at least one role is selected and at least two steps
  are completed. The second conjunct is the heuristic alone: it holds with the flag false.
\<close>

theorem C1_isOnboardingComplete_iff:
  "(isOnboardingComplete False (Some p) \<longleftrightarrow>
      onboarding_completed p = True \<or>
      (length (selected_roles p) \<ge> 1 \<and> length (completed_steps p) \<ge> 2)) \<and>
   (onboarding_completed p = False \<and>
    length (selected_roles p) \<ge> 1 \<and> length (completed_steps p) \<ge> 2 \<longrightarrow>
      isOnboardingComplete False (Some p))"
  by (cases "selected_roles p")
     (simp_all add: isOnboardingComplete_def hasMinimumRequirements_def)

theorem C1_isOnboardingComplete_iff_witness:
  "onboarding_completed
     (initialProfileData\<lparr>selected_roles := [''frontend''],
        completed_steps := [''welcome'', ''personal'']\<rparr>) = False \<and>
   isOnboardingComplete False
     (Some (initialProfileData\<lparr>selected_roles := [''frontend''],
        completed_steps := [''welcome'', ''personal'']\<rparr>)) \<and>
   \<not> isOnboardingComplete False
     (Some (initialProfileData\<lparr>selected_roles := [''frontend''],
        completed_steps := [''welcome'']\<rparr>))"
  using C1_isOnboardingComplete_iff [of "initialProfileData\<lparr>selected_roles := [''frontend''],
        completed_steps := [''welcome'', ''personal'']\<rparr>"]
    C1_isOnboardingComplete_iff [of "initialProfileData\<lparr>selected_roles := [''frontend''],
        completed_steps := [''welcome'']\<rparr>"]
  by (simp add: initialProfileData_def)

text \<open>
  C10. While the store is loading, or while no aggregate has been loaded, the derived
  signal is false whatever the aggregate's persisted flag says.
\<close>

theorem C10_incomplete_until_loaded:
  "loading \<or> pd = None \<longrightarrow> \<not> isOnboardingComplete loading pd"
  by (simp add: isOnboardingComplete_def split: option.split)

theorem C10_incomplete_until_loaded_witness:
  "(True \<or> Some (initialProfileData\<lparr>onboarding_completed := True\<rparr>) = None) \<and>
   \<not> isOnboardingComplete True (Some (initialProfileData\<lparr>onboarding_completed := True\<rparr>)) \<and>
   (False \<or> (None :: ProfileData option) = None) \<and>
   \<not> isOnboardingComplete False None"
  using C10_incomplete_until_loaded [of True "Some (initialProfileData\<lparr>onboarding_completed := True\<rparr>)"]
    C10_incomplete_until_loaded [of False None]
  by simp

text \<open>
  C6. \<open>completeStep\<close> is idempotent: applying it again with the same section id to the
  aggregate it produced gives the same aggregate. On a loaded aggregate it appends the id
  exactly when the id is not yet present, so after two calls \<open>completed_steps\<close> is one
  longer for a fresh id, not two, and unchanged for a present one. It writes to no remote
  table.
\<close>

theorem C6_completeStep_idempotent:
  "completeStep (fst (completeStep pd step)) step = completeStep pd step \<and>
   snd (completeStep pd step) = [] \<and>
   (\<forall>p. pd = Some p \<longrightarrow>
      (\<exists>q r. fst (completeStep pd step) = Some q \<and>
         completed_steps q =
           (if step \<in> set (completed_steps p) then completed_steps p
            else completed_steps p @ [step]) \<and>
         fst (completeStep (Some q) step) = Some r \<and>
         length (completed_steps r) =
           length (completed_steps p) + (if step \<in> set (completed_steps p) then 0 else 1)))"
  by (cases pd) (auto simp: completeStep_def)

theorem C6_completeStep_idempotent_witness:
  "fst (completeStep (Some initialProfileData) ''roles'') =
     Some (initialProfileData\<lparr>completed_steps := [''roles'']\<rparr>) \<and>
   fst (completeStep (Some (initialProfileData\<lparr>completed_steps := [''roles'']\<rparr>)) ''roles'') =
     Some (initialProfileData\<lparr>completed_steps := [''roles'']\<rparr>) \<and>
   ''roles'' \<notin> set (completed_steps initialProfileData) \<and>
   length (completed_steps (initialProfileData\<lparr>completed_steps := [''roles'']\<rparr>)) =
     length (completed_steps initialProfileData) + 1 \<and>
   snd (completeStep (Some initialProfileData) ''roles'') = []"
proof -
  have a: "fst (completeStep (Some initialProfileData) ''roles'') =
      Some (initialProfileData\<lparr>completed_steps := [''roles'']\<rparr>)"
    by (simp add: completeStep_def initialProfileData_def)
  have c: "''roles'' \<notin> set (completed_steps initialProfileData)"
    by (simp add: initialProfileData_def)
  from C6_completeStep_idempotent [of "Some initialProfileData" "''roles''"] a c
  show ?thesis by auto
qed


subsection \<open>Tier classifier\<close>

text \<open>
  C4. A field is shown in onboarding mode exactly when its tier is ESSENTIAL, and every
  field is shown in profile mode. A field whose tier is undefined or a number outside the
  enum is shown exactly as a COMPREHENSIVE field is: hidden in onboarding mode, shown in
  profile mode; the filter has a value for it.
\<close>

theorem C4_visibility_by_tier:
  "(f \<in> set (visibleFields fm m fs) \<longleftrightarrow>
      f \<in> set fs \<and> (currentMode fm m = Onboarding \<longrightarrow> tier f = ESSENTIAL)) \<and>
   (currentMode fm m = Profile \<longrightarrow> visibleFields fm m fs = fs) \<and>
   (isVisible Onboarding f \<longleftrightarrow> tier f = ESSENTIAL) \<and>
   isVisible Profile f \<and>
   (tier f \<notin> {ESSENTIAL, IMPORTANT, COMPREHENSIVE} \<longrightarrow>
      isVisible cm f = isVisible cm (f\<lparr>tier := COMPREHENSIVE\<rparr>) \<and>
      \<not> isVisible Onboarding f \<and> isVisible Profile f)"
  by (auto simp: visibleFields_def isVisible_def ESSENTIAL_def COMPREHENSIVE_def)

theorem C4_visibility_by_tier_witness:
  "currentMode None Onboarding = Onboarding \<and>
   visibleFields None Onboarding
     [\<lparr>field_id = ''name'', tier = ESSENTIAL, component = (), label = None, required = Some True\<rparr>,
      \<lparr>field_id = ''bio'', tier = Undefined, component = (), label = None, required = None\<rparr>,
      \<lparr>field_id = ''title'', tier = Num 7, component = (), label = None, required = None\<rparr>] =
     [\<lparr>field_id = ''name'', tier = ESSENTIAL, component = (), label = None, required = Some True\<rparr>] \<and>
   currentMode (Some Profile) Onboarding = Profile \<and>
   visibleFields (Some Profile) Onboarding
     [\<lparr>field_id = ''name'', tier = ESSENTIAL, component = (), label = None, required = Some True\<rparr>,
      \<lparr>field_id = ''bio'', tier = Undefined, component = (), label = None, required = None\<rparr>] =
     [\<lparr>field_id = ''name'', tier = ESSENTIAL, component = (), label = None, required = Some True\<rparr>,
      \<lparr>field_id = ''bio'', tier = Undefined, component = (), label = None, required = None\<rparr>] \<and>
   Undefined \<notin> {ESSENTIAL, IMPORTANT, COMPREHENSIVE} \<and>
   \<not> isVisible Onboarding
       \<lparr>field_id = ''bio'', tier = Undefined, component = (), label = None, required = None\<rparr> \<and>
   isVisible Profile
       \<lparr>field_id = ''bio'', tier = Undefined, component = (), label = None, required = None\<rparr>"
  using C4_visibility_by_tier
    [of "\<lparr>field_id = ''bio'', tier = Undefined, component = (), label = None, required = None\<rparr>"
      "Some Profile" Onboarding
      "[\<lparr>field_id = ''name'', tier = ESSENTIAL, component = (), label = None, required = Some True\<rparr>,
        \<lparr>field_id = ''bio'', tier = Undefined, component = (), label = None, required = None\<rparr>]"
      Onboarding]
  by (simp add: visibleFields_def isVisible_def currentMode_def
        ESSENTIAL_def IMPORTANT_def COMPREHENSIVE_def)

subsection \<open>Section orchestrator\<close>

lemma canContinue_range:
  "canContinue nav \<Longrightarrow> 0 \<le> currentStep nav \<and> currentStep nav < 7"
  by (auto simp: canContinue_def at_index_def profileSections_def split: if_splits)

lemma at_index_next:
  "0 \<le> c \<Longrightarrow> c < 6 \<Longrightarrow>
   at_index profileSections (c + 1) = Some (profileSections ! nat (c + 1))"
  by (simp add: at_index_def profileSections_def)

lemma canContinue_initialNav: "canContinue initialNav"
  by (simp add: canContinue_def initialNav_def at_index_def profileSections_def)

text \<open>
  C9 (as the code has it). A click that lands on a section entry itself or on its \<open>SPAN\<close>
  label makes, in profile mode, that section the active one, with its index as the
  current step, whatever the completed steps are. A click that lands on another child of
  the entry, such as the check-mark icon, is ignored in either mode. In onboarding mode
  a click on a section that is not among the completed steps, repeated any number of
  times, leaves the navigation state as it was.
\<close>

theorem C9_jump_guard:
  "(targetIsCurrentTarget e \<or> targetTagName e = ''SPAN'' \<longrightarrow>
      activeSection (handleSectionClick Profile pd sectionId e nav) = sectionId \<and>
      (activeSection nav \<noteq> sectionId \<longrightarrow>
         currentStep (handleSectionClick Profile pd sectionId e nav) =
           findIndex (\<lambda>s. section_id s = sectionId) profileSections)) \<and>
   (\<not> targetIsCurrentTarget e \<and> targetTagName e \<noteq> ''SPAN'' \<longrightarrow>
      handleSectionClick m pd sectionId e nav = nav) \<and>
   ((\<forall>p. pd = Some p \<longrightarrow> sectionId \<notin> set (completed_steps p)) \<longrightarrow>
      ((handleSectionClick Onboarding pd sectionId e) ^^ n) nav = nav)"
proof -
  have one: "(\<forall>p. pd = Some p \<longrightarrow> sectionId \<notin> set (completed_steps p)) \<Longrightarrow>
      handleSectionClick Onboarding pd sectionId e v = v" for v
    by (auto simp: handleSectionClick_def split: option.splits)
  have "(\<forall>p. pd = Some p \<longrightarrow> sectionId \<notin> set (completed_steps p)) \<Longrightarrow>
      ((handleSectionClick Onboarding pd sectionId e) ^^ n) nav = nav"
    by (induction n) (simp_all add: one)
  then show ?thesis
    by (auto simp: handleSectionClick_def)
qed

theorem C9_jump_guard_witness:
  "targetIsCurrentTarget \<lparr>targetIsCurrentTarget = True, targetTagName = ''BUTTON''\<rparr> \<and>
   handleSectionClick Profile (Some initialProfileData) ''roles''
     \<lparr>targetIsCurrentTarget = True, targetTagName = ''BUTTON''\<rparr>
     (initialNav\<lparr>currentStep := 1, activeSection := ''personal''\<rparr>) =
     initialNav\<lparr>currentStep := 2, activeSection := ''roles''\<rparr> \<and>
   \<not> targetIsCurrentTarget \<lparr>targetIsCurrentTarget = False, targetTagName = ''svg''\<rparr> \<and>
   targetTagName \<lparr>targetIsCurrentTarget = False, targetTagName = ''svg''\<rparr> \<noteq> ''SPAN'' \<and>
   handleSectionClick Profile (Some initialProfileData) ''roles''
     \<lparr>targetIsCurrentTarget = False, targetTagName = ''svg''\<rparr>
     (initialNav\<lparr>currentStep := 1, activeSection := ''personal''\<rparr>) =
     initialNav\<lparr>currentStep := 1, activeSection := ''personal''\<rparr> \<and>
   ''roles'' \<notin> set (completed_steps initialProfileData) \<and>
   handleSectionClick Onboarding (Some initialProfileData) ''roles''
     \<lparr>targetIsCurrentTarget = True, targetTagName = ''BUTTON''\<rparr>
     (handleSectionClick Onboarding (Some initialProfileData) ''roles''
        \<lparr>targetIsCurrentTarget = True, targetTagName = ''BUTTON''\<rparr>
        (initialNav\<lparr>currentStep := 1, activeSection := ''personal''\<rparr>)) =
     initialNav\<lparr>currentStep := 1, activeSection := ''personal''\<rparr>"
proof -
  let ?e = "\<lparr>targetIsCurrentTarget = True, targetTagName = ''BUTTON''\<rparr>"
  let ?icon = "\<lparr>targetIsCurrentTarget = False, targetTagName = ''svg''\<rparr>"
  let ?nav = "initialNav\<lparr>currentStep := 1, activeSection := ''personal''\<rparr>"
  have fresh: "\<forall>p. Some initialProfileData = Some p \<longrightarrow> ''roles'' \<notin> set (completed_steps p)"
    by (simp add: initialProfileData_def)
  have two: "(handleSectionClick Onboarding (Some initialProfileData) ''roles'' ?e ^^ 2) ?nav =
      handleSectionClick Onboarding (Some initialProfileData) ''roles'' ?e
        (handleSectionClick Onboarding (Some initialProfileData) ''roles'' ?e ?nav)"
    by (simp add: numeral_2_eq_2)
  have idx: "findIndex (\<lambda>s. section_id s = ''roles'') profileSections = 2"
    by (simp add: profileSections_def)
  from C9_jump_guard [of ?e "Some initialProfileData" "''roles''" ?nav Profile 2]
    C9_jump_guard [of ?icon "Some initialProfileData" "''roles''" ?nav Profile 2]
    fresh two idx
  show ?thesis
    by (simp add: initialNav_def initialProfileData_def handleSectionClick_def)
qed

text \<open>
  C9 as stated fails in profile mode for a click on the check-mark icon of a completed
  section's entry: the target is neither the entry nor its \<open>SPAN\<close>, and the navigation
  state stays on the personal section.
\<close>

theorem C9_counterexample:
  "activeSection
     (handleSectionClick Profile
        (Some (initialProfileData\<lparr>completed_steps := [''personal'', ''roles'']\<rparr>)) ''roles''
        \<lparr>targetIsCurrentTarget = False, targetTagName = ''svg''\<rparr>
        (initialNav\<lparr>currentStep := 1, activeSection := ''personal''\<rparr>)) = ''personal'' \<and>
   currentStep
     (handleSectionClick Profile
        (Some (initialProfileData\<lparr>completed_steps := [''personal'', ''roles'']\<rparr>)) ''roles''
        \<lparr>targetIsCurrentTarget = False, targetTagName = ''svg''\<rparr>
        (initialNav\<lparr>currentStep := 1, activeSection := ''personal''\<rparr>)) = 1 \<and>
   activeSection
     (handleSectionClick Profile
        (Some (initialProfileData\<lparr>completed_steps := [''personal'', ''roles'']\<rparr>)) ''roles''
        \<lparr>targetIsCurrentTarget = False, targetTagName = ''svg''\<rparr>
        (initialNav\<lparr>currentStep := 1, activeSection := ''personal''\<rparr>)) \<noteq> ''roles''"
  by (simp add: handleSectionClick_def initialNav_def)

text \<open>
  C2 (as the code has it). A \<open>handleNext\<close> taken while \<open>canContinue\<close> holds, on a loaded
  aggregate and with no rejected save, makes its calls in this order. On a step other
  than the last: an extra \<open>saveProfile\<close> first when the active section is the personal
  one, then \<open>updateProfile\<close> adding the active section to the completed steps when it is
  absent, then the current step set to its successor together with the active section,
  and only then \<open>saveProfile\<close>. On the last step, whose section is the completion screen:
  the same marking, then \<open>updateProfile\<close> with \<open>onboarding_completed\<close> true, then
  \<open>saveProfile\<close>, then the redirect to the dashboard, with no change of the current step.
\<close>

theorem C2_handleNext_order:
  assumes cc: "canContinue nav"
    and nr: "\<forall>k. \<not> saveRejects k"
  shows "(currentStep nav \<noteq> int (length profileSections) - 1 \<longrightarrow>
            handleNext nav (Some p) saveRejects =
              [SetHasAttemptedContinue True, SetIsSaving True] @
              (if activeSection nav = ''personal'' then [SaveProfile] else []) @
              (if activeSection nav \<notin> set (completed_steps p)
               then [UpdateProfile (PatchCompletedSteps (completed_steps p @ [activeSection nav]))]
               else []) @
              [SetCurrentStep (currentStep nav + 1),
               SetActiveSection (section_id (profileSections ! nat (currentStep nav + 1))),
               SetHasAttemptedContinue False,
               SaveProfile,
               SetSaveSuccessMessage [],
               SetIsSaving False]) \<and>
         (currentStep nav = int (length profileSections) - 1 \<longrightarrow>
            handleNext nav (Some p) saveRejects =
              [SetHasAttemptedContinue True, SetIsSaving True] @
              (if activeSection nav = ''personal'' then [SaveProfile] else []) @
              (if activeSection nav \<notin> set (completed_steps p)
               then [UpdateProfile (PatchCompletedSteps (completed_steps p @ [activeSection nav]))]
               else []) @
              [UpdateProfile (PatchOnboardingCompleted True),
               SaveProfile,
               RemoveItem ''force_onboarding'',
               RemoveItem ''force_onboarding_timestamp'',
               GoToDashboard,
               SetIsSaving False])"
proof -
  from cc have r: "0 \<le> currentStep nav" "currentStep nav < 7"
    using canContinue_range by blast+
  have len: "int (length profileSections) - 1 = 6"
    by (simp add: profileSections_def)
  show ?thesis
  proof (cases "currentStep nav = 6")
    case True
    with cc nr show ?thesis
      by (simp add: handleNext_def len Let_def)
  next
    case False
    with r have "currentStep nav < 6" by simp
    with r have ai: "at_index profileSections (currentStep nav + 1) =
        Some (profileSections ! nat (currentStep nav + 1))"
      by (simp add: at_index_next)
    from cc nr False ai show ?thesis
      by (simp add: handleNext_def len Let_def)
  qed
qed

theorem C2_handleNext_order_witness:
  "canContinue initialNav \<and> (\<forall>k. \<not> (\<lambda>_. False) k) \<and>
   handleNext initialNav (Some initialProfileData) (\<lambda>_. False) =
     [SetHasAttemptedContinue True, SetIsSaving True,
      UpdateProfile (PatchCompletedSteps [''welcome'']),
      SetCurrentStep 1, SetActiveSection ''personal'', SetHasAttemptedContinue False,
      SaveProfile, SetSaveSuccessMessage [], SetIsSaving False] \<and>
   canContinue (initialNav\<lparr>currentStep := 6, activeSection := ''complete''\<rparr>) \<and>
   handleNext (initialNav\<lparr>currentStep := 6, activeSection := ''complete''\<rparr>)
       (Some initialProfileData) (\<lambda>_. False) =
     [SetHasAttemptedContinue True, SetIsSaving True,
      UpdateProfile (PatchCompletedSteps [''complete'']),
      UpdateProfile (PatchOnboardingCompleted True), SaveProfile,
      RemoveItem ''force_onboarding'', RemoveItem ''force_onboarding_timestamp'',
      GoToDashboard, SetIsSaving False]"
proof -
  let ?last = "initialNav\<lparr>currentStep := 6, activeSection := ''complete''\<rparr>"
  have a: "canContinue initialNav" by (rule canContinue_initialNav)
  have b: "\<forall>k. \<not> (\<lambda>_::nat. False) k" by simp
  have c: "canContinue ?last"
    by (simp add: canContinue_def initialNav_def at_index_def profileSections_def)
  from C2_handleNext_order [OF a b, of initialProfileData]
    C2_handleNext_order [OF c b, of initialProfileData] a c
  show ?thesis
    by (simp add: initialNav_def initialProfileData_def profileSections_def)
qed

text \<open>
  The order of C2 as stated fails on the welcome step: the current step is set to its
  successor before any \<open>saveProfile\<close> call, and the only save comes after it. And the step
  that reaches the completion screen, taken on the resume section, neither sets
  \<open>onboarding_completed\<close> nor redirects.
\<close>

theorem C2_counterexample:
  "canContinue initialNav \<and>
   SetCurrentStep (currentStep initialNav + 1)
     \<in> set (handleNext initialNav (Some initialProfileData) (\<lambda>_. False)) \<and>
   \<not> precedes SaveProfile (SetCurrentStep (currentStep initialNav + 1))
        (handleNext initialNav (Some initialProfileData) (\<lambda>_. False)) \<and>
   precedes (SetCurrentStep (currentStep initialNav + 1)) SaveProfile
        (handleNext initialNav (Some initialProfileData) (\<lambda>_. False)) \<and>
   canContinue (initialNav\<lparr>currentStep := 5, activeSection := ''resume''\<rparr>) \<and>
   SetActiveSection ''complete''
     \<in> set (handleNext (initialNav\<lparr>currentStep := 5, activeSection := ''resume''\<rparr>)
              (Some initialProfileData) (\<lambda>_. False)) \<and>
   UpdateProfile (PatchOnboardingCompleted True)
     \<notin> set (handleNext (initialNav\<lparr>currentStep := 5, activeSection := ''resume''\<rparr>)
              (Some initialProfileData) (\<lambda>_. False)) \<and>
   GoToDashboard
     \<notin> set (handleNext (initialNav\<lparr>currentStep := 5, activeSection := ''resume''\<rparr>)
              (Some initialProfileData) (\<lambda>_. False))"
  by (simp add: handleNext_def canContinue_def initialNav_def at_index_def
        profileSections_def initialProfileData_def)


subsection \<open>Personal-information validator\<close>

text \<open>The backtracking matcher accepts exactly the strings the pattern denotes.\<close>

lemma atLeast_match_iff:
  "atLeast_match n P s k \<longleftrightarrow>
     (\<exists>u v. s = u @ v \<and> n \<le> length u \<and> (\<forall>x \<in> set u. P x) \<and> k v)"
proof (induction s arbitrary: n)
  case Nil
  show ?case by auto
next
  case (Cons c cs)
  show ?case (is "?L \<longleftrightarrow> ?R")
  proof
    assume ?L
    then consider (take) "P c" "atLeast_match (n - 1) P cs k" | (stop) "n = 0" "k (c # cs)"
      by auto
    then show ?R
    proof cases
      case take
      then obtain u v where "cs = u @ v" "n - 1 \<le> length u" "\<forall>x \<in> set u. P x" "k v"
        using Cons.IH by blast
      with take(1) have "c # cs = (c # u) @ v \<and> n \<le> length (c # u) \<and> (\<forall>x \<in> set (c # u). P x) \<and> k v"
        by auto
      then show ?thesis by blast
    next
      case stop
      then have "c # cs = [] @ (c # cs) \<and> n \<le> length ([]::nat list) \<and> (\<forall>x \<in> set ([]::nat list). P x) \<and> k (c # cs)"
        by simp
      then show ?thesis by blast
    qed
  next
    assume ?R
    then obtain u v where uv: "c # cs = u @ v" "n \<le> length u" "\<forall>x \<in> set u. P x" "k v"
      by blast
    show ?L
    proof (cases u)
      case Nil
      with uv have "n = 0" "v = c # cs" by auto
      with uv(4) show ?thesis by simp
    next
      case (Cons a u')
      with uv have "a = c" "cs = u' @ v" "n - 1 \<le> length u'" "\<forall>x \<in> set u'. P x" "P c"
        by auto
      with uv(4) have "atLeast_match (n - 1) P cs k"
        using Cons.IH by blast
      with \<open>P c\<close> show ?thesis by simp
    qed
  qed
qed

lemma lang_Seq_iff: "w \<in> lang (Seq r1 r2) \<longleftrightarrow> (\<exists>u v. w = u @ v \<and> u \<in> lang r1 \<and> v \<in> lang r2)"
  by auto

lemma lang_Class_iff: "w \<in> lang (Class P) \<longleftrightarrow> (\<exists>c. w = [c] \<and> P c)"
  by auto

lemma matches_iff:
  "matches r s k \<longleftrightarrow> (\<exists>u v. s = u @ v \<and> u \<in> lang r \<and> k v)"
proof (induction r arbitrary: s k)
  case (Class P)
  show ?case
  proof (cases s)
    case Nil
    then show ?thesis by simp
  next
    case (Cons a as)
    have "(\<exists>u v. a # as = u @ v \<and> u \<in> lang (Class P) \<and> k v) \<longleftrightarrow> P a \<and> k as"
    proof
      assume "\<exists>u v. a # as = u @ v \<and> u \<in> lang (Class P) \<and> k v"
      then obtain u v c where "a # as = u @ v" "u = [c]" "P c" "k v"
        unfolding lang_Class_iff by blast
      then show "P a \<and> k as" by simp
    next
      assume "P a \<and> k as"
      then have "a # as = [a] @ as \<and> [a] \<in> lang (Class P) \<and> k as" by simp
      then show "\<exists>u v. a # as = u @ v \<and> u \<in> lang (Class P) \<and> k v" by blast
    qed
    with Cons show ?thesis by simp
  qed
next
  case (Seq r1 r2)
  have "matches (Seq r1 r2) s k \<longleftrightarrow>
        (\<exists>u v. s = u @ v \<and> u \<in> lang r1 \<and> (\<exists>u' v'. v = u' @ v' \<and> u' \<in> lang r2 \<and> k v'))"
    by (simp add: Seq.IH(1) [of s] Seq.IH(2))
  also have "\<dots> \<longleftrightarrow> (\<exists>w v'. s = w @ v' \<and> w \<in> lang (Seq r1 r2) \<and> k v')"
  proof
    assume "\<exists>u v. s = u @ v \<and> u \<in> lang r1 \<and> (\<exists>u' v'. v = u' @ v' \<and> u' \<in> lang r2 \<and> k v')"
    then obtain u u' v' where "s = (u @ u') @ v'" "u \<in> lang r1" "u' \<in> lang r2" "k v'"
      by auto
    then have "s = (u @ u') @ v' \<and> u @ u' \<in> lang (Seq r1 r2) \<and> k v'"
      unfolding lang_Seq_iff by blast
    then show "\<exists>w v'. s = w @ v' \<and> w \<in> lang (Seq r1 r2) \<and> k v'" by blast
  next
    assume "\<exists>w v'. s = w @ v' \<and> w \<in> lang (Seq r1 r2) \<and> k v'"
    then obtain u u' v' where "s = u @ (u' @ v')" "u \<in> lang r1" "u' \<in> lang r2" "k v'"
      unfolding lang_Seq_iff by auto
    then show "\<exists>u v. s = u @ v \<and> u \<in> lang r1 \<and> (\<exists>u' v'. v = u' @ v' \<and> u' \<in> lang r2 \<and> k v')"
      by blast
  qed
  finally show ?case .
next
  case (Optional r)
  have "matches (Optional r) s k \<longleftrightarrow> (\<exists>u v. s = u @ v \<and> u \<in> lang r \<and> k v) \<or> k s"
    by (simp add: Optional.IH)
  also have "\<dots> \<longleftrightarrow> (\<exists>u v. s = u @ v \<and> u \<in> lang (Optional r) \<and> k v)"
  proof
    assume "(\<exists>u v. s = u @ v \<and> u \<in> lang r \<and> k v) \<or> k s"
    then show "\<exists>u v. s = u @ v \<and> u \<in> lang (Optional r) \<and> k v"
    proof
      assume "\<exists>u v. s = u @ v \<and> u \<in> lang r \<and> k v"
      then obtain u v where "s = u @ v" "u \<in> lang (Optional r)" "k v" by auto
      then show ?thesis by blast
    next
      assume "k s"
      then have "s = [] @ s \<and> [] \<in> lang (Optional r) \<and> k s" by simp
      then show ?thesis by blast
    qed
  next
    assume "\<exists>u v. s = u @ v \<and> u \<in> lang (Optional r) \<and> k v"
    then obtain u v where uv: "s = u @ v" "u = [] \<or> u \<in> lang r" "k v" by auto
    from uv(2) show "(\<exists>u v. s = u @ v \<and> u \<in> lang r \<and> k v) \<or> k s"
    proof
      assume "u = []"
      with uv show ?thesis by simp
    next
      assume "u \<in> lang r"
      with uv show ?thesis by blast
    qed
  qed
  finally show ?case .
next
  case (AtLeast n P)
  show ?case by (simp add: atLeast_match_iff)
qed

lemma test_iff_lang: "test r s \<longleftrightarrow> s \<in> lang r"
  by (simp add: test_def matches_iff)

lemma lang_AtLeast_one: "u \<in> lang (AtLeast 1 P) \<longleftrightarrow> u \<noteq> [] \<and> (\<forall>x \<in> set u. P x)"
  by (cases u) auto

lemma test_phoneRegex_iff: "test phoneRegex s \<longleftrightarrow> phone_shape s"
proof -
  have "s \<in> lang phoneRegex \<longleftrightarrow>
      (\<exists>u v. s = u @ v \<and> (u = [] \<or> u = [of_char CHR ''+'']) \<and>
         10 \<le> length v \<and> (\<forall>c \<in> set v. phoneClass c))"
    unfolding phoneRegex_def lang_Seq_iff by auto
  then show ?thesis
    by (simp add: test_iff_lang phone_shape_def)
qed

lemma test_emailRegex_iff: "test emailRegex s \<longleftrightarrow> email_shape s"
proof
  assume "test emailRegex s"
  then have "s \<in> lang emailRegex" by (simp add: test_iff_lang)
  then obtain l r1 where 1: "s = l @ r1" "l \<in> lang (AtLeast 1 notSpaceOrAt)"
      and "r1 \<in> lang (Seq (Class (\<lambda>c. c = of_char CHR ''@''))
         (Seq (AtLeast 1 notSpaceOrAt)
           (Seq (Class (\<lambda>c. c = of_char CHR ''.''))
             (AtLeast 1 notSpaceOrAt))))"
    unfolding emailRegex_def lang_Seq_iff [of s] by blast
  then obtain a r2 where 2: "r1 = a @ r2" "a \<in> lang (Class (\<lambda>c. c = of_char CHR ''@''))"
      and "r2 \<in> lang (Seq (AtLeast 1 notSpaceOrAt)
           (Seq (Class (\<lambda>c. c = of_char CHR ''.''))
             (AtLeast 1 notSpaceOrAt)))"
    unfolding lang_Seq_iff [of r1] by blast
  then obtain d r3 where 3: "r2 = d @ r3" "d \<in> lang (AtLeast 1 notSpaceOrAt)"
      and "r3 \<in> lang (Seq (Class (\<lambda>c. c = of_char CHR ''.'')) (AtLeast 1 notSpaceOrAt))"
    unfolding lang_Seq_iff [of r2] by blast
  then obtain b t where 4: "r3 = b @ t" "b \<in> lang (Class (\<lambda>c. c = of_char CHR ''.''))"
      "t \<in> lang (AtLeast 1 notSpaceOrAt)"
    unfolding lang_Seq_iff [of r3] by blast
  from 2(2) have a: "a = [of_char CHR ''@'']" unfolding lang_Class_iff by blast
  from 4(2) have b: "b = [of_char CHR ''.'']" unfolding lang_Class_iff by blast
  have eq: "s = l @ [of_char CHR ''@''] @ d @ [of_char CHR ''.''] @ t"
    unfolding 1(1) 2(1) 3(1) 4(1) a b by simp
  have ne: "l \<noteq> []" "d \<noteq> []" "t \<noteq> []"
    using 1(2) 3(2) 4(3) unfolding lang_AtLeast_one by blast+
  have cl: "\<forall>c \<in> set (l @ d @ t). \<not> isWhiteSpace c \<and> c \<noteq> of_char CHR ''@''"
    using 1(2) 3(2) 4(3) unfolding lang_AtLeast_one notSpaceOrAt_def by auto
  from eq ne cl show "email_shape s" unfolding email_shape_def by blast
next
  assume "email_shape s"
  then obtain l d t where eq: "s = l @ [of_char CHR ''@''] @ d @ [of_char CHR ''.''] @ t"
      and ne: "l \<noteq> []" "d \<noteq> []" "t \<noteq> []"
      and cl: "\<forall>c \<in> set (l @ d @ t). \<not> isWhiteSpace c \<and> c \<noteq> of_char CHR ''@''"
    unfolding email_shape_def by blast
  have L: "l \<in> lang (AtLeast 1 notSpaceOrAt)" "d \<in> lang (AtLeast 1 notSpaceOrAt)"
      "t \<in> lang (AtLeast 1 notSpaceOrAt)"
    using ne cl unfolding lang_AtLeast_one notSpaceOrAt_def by auto
  have A: "[of_char CHR ''@''] \<in> lang (Class (\<lambda>c. c = of_char CHR ''@''))"
    and B: "[of_char CHR ''.''] \<in> lang (Class (\<lambda>c. c = of_char CHR ''.''))"
    unfolding lang_Class_iff by blast+
  have "[of_char CHR ''.''] @ t \<in> lang (Seq (Class (\<lambda>c. c = of_char CHR ''.'')) (AtLeast 1 notSpaceOrAt))"
    unfolding lang_Seq_iff using B L(3) by blast
  then have "d @ [of_char CHR ''.''] @ t \<in> lang (Seq (AtLeast 1 notSpaceOrAt)
       (Seq (Class (\<lambda>c. c = of_char CHR ''.'')) (AtLeast 1 notSpaceOrAt)))"
    unfolding lang_Seq_iff [of "d @ _"] using L(2) by blast
  then have "[of_char CHR ''@''] @ d @ [of_char CHR ''.''] @ t \<in>
       lang (Seq (Class (\<lambda>c. c = of_char CHR ''@'')) (Seq (AtLeast 1 notSpaceOrAt)
         (Seq (Class (\<lambda>c. c = of_char CHR ''.'')) (AtLeast 1 notSpaceOrAt))))"
    unfolding lang_Seq_iff [of "[_] @ _"] using A by blast
  then have "s \<in> lang emailRegex"
    unfolding emailRegex_def eq lang_Seq_iff [of "l @ _"] using L(1) by blast
  then show "test emailRegex s" by (simp add: test_iff_lang)
qed

lemma validate_ada_123:
  "validateAndNotify (js ''Ada Lovelace'') (js ''ada@x.com'') (js ''123'') True = (Some False, False)"
  by (simp add: validateAndNotify_def js_def test_def emailRegex_def phoneRegex_def trim_def
      isWhiteSpace_def phoneClass_def isDigit_def notSpaceOrAt_def)

text \<open>
  C5 (as the code has it). The personal section is valid exactly when the trimmed name
  has at least two code units, the email has the shape local\<open>@\<close>domain\<open>.\<close>tld, and the
  phone is blank after trimming or is an optional \<open>+\<close> followed by at least ten digits,
  white-space characters, dashes or parentheses. So an invalid name or email makes it
  false, a blank phone never does, and no field other than these three is read.
\<close>

theorem C5_personal_validity:
  "(snd (validateAndNotify fullName email' phone cb) \<longleftrightarrow>
      2 \<le> length (trim fullName) \<and> email_shape email' \<and>
      (trim phone = [] \<or> phone_shape phone)) \<and>
   (length (trim fullName) < 2 \<or> \<not> email_shape email' \<longrightarrow>
      \<not> snd (validateAndNotify fullName email' phone cb)) \<and>
   (2 \<le> length (trim fullName) \<and> email_shape email' \<and> trim phone = [] \<longrightarrow>
      snd (validateAndNotify fullName email' phone cb)) \<and>
   fst (validateAndNotify fullName email' phone cb) =
     (if cb then Some (snd (validateAndNotify fullName email' phone cb)) else None)"
  by (auto simp: validateAndNotify_def Let_def test_emailRegex_iff test_phoneRegex_iff)

theorem C5_personal_validity_witness:
  "snd (validateAndNotify (js ''Ada Lovelace'') (js ''ada@x.com'') [] True) \<and>
   2 \<le> length (trim (js ''Ada Lovelace'')) \<and> email_shape (js ''ada@x.com'') \<and>
   trim [] = [] \<and>
   length (trim (js '' A '')) < 2 \<and>
   \<not> snd (validateAndNotify (js '' A '') (js ''ada@x.com'') [] True) \<and>
   \<not> phone_shape (js ''123'') \<and>
   phone_shape (js ''+1 (555) 123-4567'')"
proof -
  have a: "snd (validateAndNotify (js ''Ada Lovelace'') (js ''ada@x.com'') [] True)"
    by (simp add: validateAndNotify_def js_def test_def emailRegex_def trim_def
        isWhiteSpace_def notSpaceOrAt_def)
  have b: "length (trim (js '' A '')) < 2"
    by (simp add: js_def trim_def isWhiteSpace_def)
  have c: "\<not> snd (validateAndNotify (js ''Ada Lovelace'') (js ''ada@x.com'') (js ''123'') True)"
    by (simp add: validate_ada_123)
  have d: "trim (js ''123'') \<noteq> []"
    by (simp add: js_def trim_def isWhiteSpace_def)
  have e: "snd (validateAndNotify (js ''Ada Lovelace'') (js ''ada@x.com'')
                  (js ''+1 (555) 123-4567'') True)"
    by (simp add: validateAndNotify_def js_def test_def emailRegex_def phoneRegex_def trim_def
        isWhiteSpace_def phoneClass_def isDigit_def notSpaceOrAt_def)
  have f: "trim (js ''+1 (555) 123-4567'') \<noteq> []"
    by (simp add: js_def trim_def isWhiteSpace_def)
  have g: "trim [] = []" by (simp add: trim_def)
  from C5_personal_validity [of "js ''Ada Lovelace''" "js ''ada@x.com''" "[]" True] a
  have ok: "2 \<le> length (trim (js ''Ada Lovelace''))" "email_shape (js ''ada@x.com'')"
    by blast+
  from C5_personal_validity [of "js '' A ''" "js ''ada@x.com''" "[]" True] b
  have short: "\<not> snd (validateAndNotify (js '' A '') (js ''ada@x.com'') [] True)"
    by blast
  from C5_personal_validity [of "js ''Ada Lovelace''" "js ''ada@x.com''" "js ''123''" True] c ok
  have bad: "\<not> phone_shape (js ''123'')"
    by blast
  from C5_personal_validity [of "js ''Ada Lovelace''" "js ''ada@x.com''" "js ''+1 (555) 123-4567''" True] e f
  have good: "phone_shape (js ''+1 (555) 123-4567'')"
    by blast
  from a ok g b short bad good show ?thesis by blast
qed

text \<open>
  C5 as stated fails on the phone: with a valid name and a valid email, the phone
  \<open>123\<close> makes the section invalid, so validity is not independent of the other fields.
\<close>

theorem C5_counterexample:
  "2 \<le> length (trim (js ''Ada Lovelace'')) \<and>
   test emailRegex (js ''ada@x.com'') \<and>
   \<not> snd (validateAndNotify (js ''Ada Lovelace'') (js ''ada@x.com'') (js ''123'') True) \<and>
   snd (validateAndNotify (js ''Ada Lovelace'') (js ''ada@x.com'') [] True)"
  by (simp add: validateAndNotify_def js_def test_def emailRegex_def phoneRegex_def trim_def
      isWhiteSpace_def phoneClass_def isDigit_def notSpaceOrAt_def)


subsection \<open>Saving\<close>

lemma saveBody_resolved:
  "upsertProfiles env = Resolved e1 \<Longrightarrow> upsertPreferences env = Resolved e2 \<Longrightarrow>
   upsertOnboarding env = Resolved e3 \<Longrightarrow>
   saveBody env loading p =
     ([UpsertProfiles (profilePayload p), UpsertPreferences (preferencesPayload p),
       UpsertOnboarding (onboardingPayload loading p), SelectSavedProfile (id' p)],
      Returns (e1 = None \<and> e2 = None \<and> e3 = None))"
  by (simp add: saveBody_def Let_def)

lemma saveBody_cases:
  "saveBody env loading p =
     (case upsertProfiles env of
        Rejected \<Rightarrow> ([UpsertProfiles (profilePayload p)], Throws)
      | Resolved e1 \<Rightarrow>
          (case upsertPreferences env of
             Rejected \<Rightarrow>
               ([UpsertProfiles (profilePayload p), UpsertPreferences (preferencesPayload p)],
                Throws)
           | Resolved e2 \<Rightarrow>
               (case upsertOnboarding env of
                  Rejected \<Rightarrow>
                    ([UpsertProfiles (profilePayload p), UpsertPreferences (preferencesPayload p),
                      UpsertOnboarding (onboardingPayload loading p)], Throws)
                | Resolved e3 \<Rightarrow>
                    ([UpsertProfiles (profilePayload p), UpsertPreferences (preferencesPayload p),
                      UpsertOnboarding (onboardingPayload loading p), SelectSavedProfile (id' p)],
                     Returns (e1 = None \<and> e2 = None \<and> e3 = None)))))"
  by (simp add: saveBody_def Let_def split: awaited.splits)

lemma saveProfile_returned:
  "profileData st = Some p \<Longrightarrow>
   returned (saveProfile env st) =
     Returns (Some (upsertProfiles env = Resolved None \<and> upsertPreferences env = Resolved None \<and>
                    upsertOnboarding env = Resolved None))"
  by (simp add: saveProfile_def saveBody_cases split: awaited.splits)

lemma saveProfile_calls_resolved:
  "profileData st = Some p \<Longrightarrow>
   upsertProfiles env = Resolved e1 \<Longrightarrow> upsertPreferences env = Resolved e2 \<Longrightarrow>
   upsertOnboarding env = Resolved e3 \<Longrightarrow>
   calls (saveProfile env st) =
     [UpsertProfiles (profilePayload p), UpsertPreferences (preferencesPayload p),
      UpsertOnboarding (onboardingPayload (isLoading st) p), SelectSavedProfile (id' p)]"
  by (simp add: saveProfile_def saveBody_resolved)

lemma saveProfile_calls_rejected:
  "profileData st = Some p \<Longrightarrow> upsertProfiles env = Rejected \<Longrightarrow>
   calls (saveProfile env st) = [UpsertProfiles (profilePayload p)]"
  "profileData st = Some p \<Longrightarrow> upsertProfiles env = Resolved e1 \<Longrightarrow>
   upsertPreferences env = Rejected \<Longrightarrow>
   calls (saveProfile env st) =
     [UpsertProfiles (profilePayload p), UpsertPreferences (preferencesPayload p)]"
  by (simp_all add: saveProfile_def saveBody_cases)

text \<open>
  C3 (as the code has it). On a loaded aggregate \<open>saveProfile\<close> always returns a boolean
  and never throws, and the boolean is true exactly when all three upserts resolved
  without an error. When the upserts resolve, with or without errors, all three are
  issued, to \<open>profiles\<close>, \<open>user_preferences\<close> and \<open>user_onboarding\<close> in this order, so an
  error reported by an earlier one does not stop the later ones. When an upsert call
  rejects, the later ones are not issued and the result is \<open>false\<close>.
\<close>

theorem C3_saveProfile_partial:
  assumes loaded: "profileData st = Some p"
  shows "(\<exists>b. returned (saveProfile env st) = Returns (Some b)) \<and>
         (returned (saveProfile env st) = Returns (Some True) \<longleftrightarrow>
            upsertProfiles env = Resolved None \<and> upsertPreferences env = Resolved None \<and>
            upsertOnboarding env = Resolved None) \<and>
         (upsertProfiles env = Resolved e1 \<and> upsertPreferences env = Resolved e2 \<and>
          upsertOnboarding env = Resolved e3 \<longrightarrow>
            filter is_upsert (calls (saveProfile env st)) =
              [UpsertProfiles (profilePayload p), UpsertPreferences (preferencesPayload p),
               UpsertOnboarding (onboardingPayload (isLoading st) p)] \<and>
            map table_of (filter is_upsert (calls (saveProfile env st))) =
              [Profiles, UserPreferences, UserOnboarding] \<and>
            returned (saveProfile env st) = Returns (Some (e1 = None \<and> e2 = None \<and> e3 = None))) \<and>
         (upsertProfiles env = Rejected \<longrightarrow>
            calls (saveProfile env st) = [UpsertProfiles (profilePayload p)] \<and>
            returned (saveProfile env st) = Returns (Some False)) \<and>
         (upsertProfiles env = Resolved e1 \<and> upsertPreferences env = Rejected \<longrightarrow>
            calls (saveProfile env st) =
              [UpsertProfiles (profilePayload p), UpsertPreferences (preferencesPayload p)] \<and>
            returned (saveProfile env st) = Returns (Some False))"
proof -
  note r = saveProfile_returned [OF loaded, of env]
  have 1: "\<exists>b. returned (saveProfile env st) = Returns (Some b)"
    using r by blast
  have 2: "returned (saveProfile env st) = Returns (Some True) \<longleftrightarrow>
            upsertProfiles env = Resolved None \<and> upsertPreferences env = Resolved None \<and>
            upsertOnboarding env = Resolved None"
    using r by simp
  have 3: "upsertProfiles env = Resolved e1 \<and> upsertPreferences env = Resolved e2 \<and>
          upsertOnboarding env = Resolved e3 \<longrightarrow>
            filter is_upsert (calls (saveProfile env st)) =
              [UpsertProfiles (profilePayload p), UpsertPreferences (preferencesPayload p),
               UpsertOnboarding (onboardingPayload (isLoading st) p)] \<and>
            map table_of (filter is_upsert (calls (saveProfile env st))) =
              [Profiles, UserPreferences, UserOnboarding] \<and>
            returned (saveProfile env st) = Returns (Some (e1 = None \<and> e2 = None \<and> e3 = None))"
    using r by (simp add: saveProfile_calls_resolved [OF loaded])
  have 4: "upsertProfiles env = Rejected \<longrightarrow>
            calls (saveProfile env st) = [UpsertProfiles (profilePayload p)] \<and>
            returned (saveProfile env st) = Returns (Some False)"
    using r by (simp add: saveProfile_calls_rejected(1) [OF loaded])
  have 5: "upsertProfiles env = Resolved e1 \<and> upsertPreferences env = Rejected \<longrightarrow>
            calls (saveProfile env st) =
              [UpsertProfiles (profilePayload p), UpsertPreferences (preferencesPayload p)] \<and>
            returned (saveProfile env st) = Returns (Some False)"
    using r by (simp add: saveProfile_calls_rejected(2) [OF loaded])
  from 1 2 3 4 5 show ?thesis by blast
qed

theorem C3_saveProfile_partial_witness:
  "profileData loadedStore = Some initialProfileData \<and>
   upsertProfiles preferencesFail = Resolved None \<and>
   upsertPreferences preferencesFail = Resolved (Some serverError) \<and>
   upsertOnboarding preferencesFail = Resolved None \<and>
   map table_of (filter is_upsert (calls (saveProfile preferencesFail loadedStore))) =
     [Profiles, UserPreferences, UserOnboarding] \<and>
   returned (saveProfile preferencesFail loadedStore) = Returns (Some False) \<and>
   upsertProfiles profilesRejects = Rejected \<and>
   calls (saveProfile profilesRejects loadedStore) =
     [UpsertProfiles (profilePayload initialProfileData)] \<and>
   returned (saveProfile profilesRejects loadedStore) = Returns (Some False)"
proof -
  have l: "profileData loadedStore = Some initialProfileData"
    by (simp add: loadedStore_def)
  have e: "upsertProfiles preferencesFail = Resolved None"
      "upsertPreferences preferencesFail = Resolved (Some serverError)"
      "upsertOnboarding preferencesFail = Resolved None"
    by (simp_all add: preferencesFail_def)
  have r: "upsertProfiles profilesRejects = Rejected"
    by (simp add: profilesRejects_def)
  from C3_saveProfile_partial [OF l, of preferencesFail None "Some serverError" None]
    C3_saveProfile_partial [OF l, of profilesRejects None None None] l e r
  show ?thesis by simp
qed

text \<open>
  C3 as stated fails when an upsert call throws instead of reporting an error: with a
  rejected \<open>profiles\<close> upsert only that one call is made, and the other two tables are
  never written.
\<close>

theorem C3_counterexample:
  "profileData loadedStore \<noteq> None \<and>
   map table_of (filter is_upsert (calls (saveProfile profilesRejects loadedStore))) = [Profiles] \<and>
   UserPreferences \<notin> table_of ` set (calls (saveProfile profilesRejects loadedStore)) \<and>
   UserOnboarding \<notin> table_of ` set (calls (saveProfile profilesRejects loadedStore))"
  by (simp add: loadedStore_def profilesRejects_def saveProfile_def saveBody_def)

subsection \<open>Loading\<close>

lemma loadRest_resolved:
  "selectPreferences env = Resolved preferencesReply \<Longrightarrow>
   selectOnboarding env = Resolved onboardingReply \<Longrightarrow>
   loadRest env st user profileReply =
     (\<lparr>profileData =
         Some (combinedData user (data profileReply) (data preferencesReply)
                 (data onboardingReply)),
       isLoading = False\<rparr>,
      (case error preferencesReply of
         Some e \<Rightarrow> [ErrorLoadingPreferences e] | None \<Rightarrow> []) @
      (case error onboardingReply of
         Some e \<Rightarrow> if code e \<noteq> PGRST116 then [ErrorLoadingOnboarding e] else []
       | None \<Rightarrow> []))"
  by (simp add: loadRest_def Let_def)

lemma loadProfileData_profile_error:
  "getUser env = Resolved (Some user) \<Longrightarrow> selectProfile env = Resolved profileReply \<Longrightarrow>
   error profileReply = Some e \<Longrightarrow> code e \<noteq> PGRST116 \<Longrightarrow>
   loadProfileData env st = (st\<lparr>isLoading := False\<rparr>, [ErrorLoadingProfile e])"
  by (simp add: loadProfileData_def)

lemma loadProfileData_merge:
  "getUser env = Resolved (Some user) \<Longrightarrow> selectProfile env = Resolved profileReply \<Longrightarrow>
   error profileReply = None \<or> (\<exists>e. error profileReply = Some e \<and> code e = PGRST116) \<Longrightarrow>
   loadProfileData env st = loadRest env st user profileReply"
  by (auto simp: loadProfileData_def)

lemma combinedData_no_profile_row:
  "full_name (combinedData user None fr orow) = or_str (meta_full_name user) [] \<and>
   email (combinedData user None fr orow) = or_str (user_email user) [] \<and>
   phone_number (combinedData user None fr orow) = Some [] \<and>
   location (combinedData user None fr orow) = Some [] \<and>
   linkedin_url (combinedData user None fr orow) = Some [] \<and>
   github_url (combinedData user None fr orow) = Some [] \<and>
   website_url (combinedData user None fr orow) = Some []"
  by (simp add: combinedData_def opt_field_def or_str_def)

lemma combinedData_no_preferences_row:
  "company_stage_preferences (combinedData user pr None orow) = initialCompanyStagePreferences \<and>
   locations (combinedData user pr None orow) = [] \<and>
   remote_preference (combinedData user pr None orow) = Flexible \<and>
   graduation_date (combinedData user pr None orow) = None \<and>
   employment_type (combinedData user pr None orow) = FullTime \<and>
   resume_url (combinedData user pr None orow) = Some []"
  by (simp add: combinedData_def opt_field_def or_str_def or_val_def initialProfileData_def)

lemma combinedData_no_onboarding_row:
  "selected_roles (combinedData user pr fr None) = [] \<and>
   completed_steps (combinedData user pr fr None) = [] \<and>
   onboarding_completed (combinedData user pr fr None) = False"
  by (simp add: combinedData_def opt_field_def or_val_def)

text \<open>
  C8 (as the code has it). Take a load whose three queries resolve for a signed-in user.
  An error of the profile query other than \<open>PGRST116\<close> is logged and leaves the
  aggregate as it was, which is empty on the first load. Otherwise the merged aggregate
  is built from the rows that came back: a missing row, which is how not-found shows,
  gives the defaults for the fields of its collection. \<open>PGRST116\<close> of the profile or the
  onboarding query is not logged; every error of the preferences query and every other
  error of the onboarding query is logged, and the merge is built all the same.
\<close>

theorem C8_load_errors:
  assumes u: "getUser env = Resolved (Some user)"
    and p: "selectProfile env = Resolved profileReply"
    and f: "selectPreferences env = Resolved preferencesReply"
    and b: "selectOnboarding env = Resolved onboardingReply"
  shows "(\<forall>e. error profileReply = Some e \<and> code e \<noteq> PGRST116 \<longrightarrow>
            loadProfileData env st = (st\<lparr>isLoading := False\<rparr>, [ErrorLoadingProfile e]) \<and>
            profileData (fst (loadProfileData env initialStore)) = None) \<and>
         (error profileReply = None \<or> (\<exists>e. error profileReply = Some e \<and> code e = PGRST116) \<longrightarrow>
            fst (loadProfileData env st) =
              \<lparr>profileData =
                  Some (combinedData user (data profileReply) (data preferencesReply)
                          (data onboardingReply)),
                isLoading = False\<rparr> \<and>
            snd (loadProfileData env st) =
              (case error preferencesReply of
                 Some e \<Rightarrow> [ErrorLoadingPreferences e] | None \<Rightarrow> []) @
              (case error onboardingReply of
                 Some e \<Rightarrow> if code e \<noteq> PGRST116 then [ErrorLoadingOnboarding e] else []
               | None \<Rightarrow> [])) \<and>
         (full_name (combinedData user None fr orow) = or_str (meta_full_name user) [] \<and>
          email (combinedData user None fr orow) = or_str (user_email user) [] \<and>
          phone_number (combinedData user None fr orow) = Some [] \<and>
          location (combinedData user None fr orow) = Some []) \<and>
         (company_stage_preferences (combinedData user pr None orow) =
            initialCompanyStagePreferences \<and>
          locations (combinedData user pr None orow) = [] \<and>
          remote_preference (combinedData user pr None orow) = Flexible \<and>
          employment_type (combinedData user pr None orow) = FullTime) \<and>
         (selected_roles (combinedData user pr fr None) = [] \<and>
          completed_steps (combinedData user pr fr None) = [] \<and>
          onboarding_completed (combinedData user pr fr None) = False)"
proof -
  have 1: "\<forall>e. error profileReply = Some e \<and> code e \<noteq> PGRST116 \<longrightarrow>
            loadProfileData env st = (st\<lparr>isLoading := False\<rparr>, [ErrorLoadingProfile e]) \<and>
            profileData (fst (loadProfileData env initialStore)) = None"
    by (simp add: loadProfileData_profile_error [OF u p] initialStore_def)
  have 2: "error profileReply = None \<or> (\<exists>e. error profileReply = Some e \<and> code e = PGRST116) \<longrightarrow>
            fst (loadProfileData env st) =
              \<lparr>profileData =
                  Some (combinedData user (data profileReply) (data preferencesReply)
                          (data onboardingReply)),
                isLoading = False\<rparr> \<and>
            snd (loadProfileData env st) =
              (case error preferencesReply of
                 Some e \<Rightarrow> [ErrorLoadingPreferences e] | None \<Rightarrow> []) @
              (case error onboardingReply of
                 Some e \<Rightarrow> if code e \<noteq> PGRST116 then [ErrorLoadingOnboarding e] else []
               | None \<Rightarrow> [])"
  proof
    assume "error profileReply = None \<or> (\<exists>e. error profileReply = Some e \<and> code e = PGRST116)"
    then have "loadProfileData env st = loadRest env st user profileReply"
      by (rule loadProfileData_merge [OF u p])
    then show "fst (loadProfileData env st) =
              \<lparr>profileData =
                  Some (combinedData user (data profileReply) (data preferencesReply)
                          (data onboardingReply)),
                isLoading = False\<rparr> \<and>
            snd (loadProfileData env st) =
              (case error preferencesReply of
                 Some e \<Rightarrow> [ErrorLoadingPreferences e] | None \<Rightarrow> []) @
              (case error onboardingReply of
                 Some e \<Rightarrow> if code e \<noteq> PGRST116 then [ErrorLoadingOnboarding e] else []
               | None \<Rightarrow> [])"
      by (simp add: loadRest_resolved [OF f b])
  qed
  from 1 2 combinedData_no_profile_row [of user fr orow]
    combinedData_no_preferences_row [of user pr orow]
    combinedData_no_onboarding_row [of user pr fr]
  show ?thesis by blast
qed

theorem C8_load_errors_witness:
  "getUser freshLoad = Resolved (Some freshUser) \<and>
   selectProfile freshLoad = Resolved \<lparr>data = None, error = Some notFound\<rparr> \<and>
   selectPreferences freshLoad = Resolved \<lparr>data = None, error = None\<rparr> \<and>
   selectOnboarding freshLoad = Resolved \<lparr>data = None, error = None\<rparr> \<and>
   code notFound = PGRST116 \<and>
   fst (loadProfileData freshLoad initialStore) =
     \<lparr>profileData = Some (combinedData freshUser None None None), isLoading = False\<rparr> \<and>
   snd (loadProfileData freshLoad initialStore) = [] \<and>
   selected_roles (combinedData freshUser None None None) = [] \<and>
   completed_steps (combinedData freshUser None None None) = [] \<and>
   \<not> isOnboardingComplete False (Some (combinedData freshUser None None None)) \<and>
   selectProfile profileErrorLoad = Resolved \<lparr>data = None, error = Some serverError\<rparr> \<and>
   code serverError \<noteq> PGRST116 \<and>
   loadProfileData profileErrorLoad initialStore =
     (initialStore\<lparr>isLoading := False\<rparr>, [ErrorLoadingProfile serverError]) \<and>
   profileData (fst (loadProfileData profileErrorLoad initialStore)) = None"
proof -
  have a: "getUser freshLoad = Resolved (Some freshUser)"
      "selectProfile freshLoad = Resolved \<lparr>data = None, error = Some notFound\<rparr>"
      "selectPreferences freshLoad = Resolved \<lparr>data = None, error = None\<rparr>"
      "selectOnboarding freshLoad = Resolved \<lparr>data = None, error = None\<rparr>"
    by (simp_all add: freshLoad_def)
  have c: "getUser profileErrorLoad = Resolved (Some freshUser)"
      "selectProfile profileErrorLoad = Resolved \<lparr>data = None, error = Some serverError\<rparr>"
      "selectPreferences profileErrorLoad = Resolved \<lparr>data = None, error = None\<rparr>"
      "selectOnboarding profileErrorLoad = Resolved \<lparr>data = Some onboardedRow, error = None\<rparr>"
    by (simp_all add: profileErrorLoad_def)
  have d: "code notFound = PGRST116" "code serverError \<noteq> PGRST116"
    by (simp_all add: notFound_def serverError_def PGRST116_def)
  have e: "\<not> isOnboardingComplete False (Some (combinedData freshUser None None None))"
    by (simp add: isOnboardingComplete_def hasMinimumRequirements_def
        combinedData_no_onboarding_row)
  from C8_load_errors [OF a, where st = initialStore and pr = None and fr = None and orow = None]
    C8_load_errors [OF c, where st = initialStore and pr = None and fr = None and orow = None]
    a c d e
  show ?thesis by (simp add: initialStore_def)
qed

text \<open>
  C8 as stated fails for an error of the preferences query: it is logged, and the load
  still builds the merged aggregate from the other two collections.
\<close>

theorem C8_counterexample:
  "selectPreferences preferencesErrorLoad = Resolved \<lparr>data = None, error = Some serverError\<rparr> \<and>
   code serverError \<noteq> PGRST116 \<and>
   snd (loadProfileData preferencesErrorLoad initialStore) =
     [ErrorLoadingPreferences serverError] \<and>
   profileData (fst (loadProfileData preferencesErrorLoad initialStore)) \<noteq> None \<and>
   (\<exists>q. profileData (fst (loadProfileData preferencesErrorLoad initialStore)) = Some q \<and>
        selected_roles q = [''frontend''] \<and> onboarding_completed q = True)"
  by (simp add: preferencesErrorLoad_def loadProfileData_def loadRest_def notFound_def
      serverError_def PGRST116_def combinedData_def opt_field_def or_val_def onboardedRow_def)


subsection \<open>Authentication event queue\<close>

text \<open>The writes to the React state leave the refs and the history fields alone.\<close>

lemma resetStates_frame [simp]:
  "mountedRef (resetStates s) = mountedRef s"
  "processingAuthEventRef (resetStates s) = processingAuthEventRef s"
  "authEventQueueRef (resetStates s) = authEventQueueRef s"
  "received (resetStates s) = received s"
  "processed (resetStates s) = processed s"
  "history (resetStates s) = history s"
  "inFlight (resetStates s) = inFlight s"
  by (simp_all add: resetStates_def)

lemma handleNow_frame [simp]:
  "mountedRef (handleNow e s) = mountedRef s"
  "processingAuthEventRef (handleNow e s) = processingAuthEventRef s"
  "authEventQueueRef (handleNow e s) = authEventQueueRef s"
  "received (handleNow e s) = received s"
  "processed (handleNow e s) = processed s"
  "history (handleNow e s) = history s"
  "inFlight (handleNow e s) = inFlight s"
  by (simp_all add: handleNow_def)

lemma immediateUpdate_frame [simp]:
  "mountedRef (immediateUpdate e s) = mountedRef s"
  "processingAuthEventRef (immediateUpdate e s) = processingAuthEventRef s"
  "authEventQueueRef (immediateUpdate e s) = authEventQueueRef s"
  "received (immediateUpdate e s) = received s"
  "processed (immediateUpdate e s) = processed s"
  "history (immediateUpdate e s) = history s"
  "inFlight (immediateUpdate e s) = inFlight s"
  by (simp_all add: immediateUpdate_def)

lemma loadUserDataStart_frame [simp]:
  "mountedRef (fst (loadUserDataStart s)) = mountedRef s"
  "processingAuthEventRef (fst (loadUserDataStart s)) = processingAuthEventRef s"
  "authEventQueueRef (fst (loadUserDataStart s)) = authEventQueueRef s"
  "received (fst (loadUserDataStart s)) = received s"
  "processed (fst (loadUserDataStart s)) = processed s"
  "history (fst (loadUserDataStart s)) = history s"
  "inFlight (fst (loadUserDataStart s)) = inFlight s"
  by (simp_all add: loadUserDataStart_def)

lemma loadUserDataFinish_frame [simp]:
  "mountedRef (loadUserDataFinish out s) = mountedRef s"
  "processingAuthEventRef (loadUserDataFinish out s) = processingAuthEventRef s"
  "authEventQueueRef (loadUserDataFinish out s) = authEventQueueRef s"
  "received (loadUserDataFinish out s) = received s"
  "processed (loadUserDataFinish out s) = processed s"
  "history (loadUserDataFinish out s) = history s"
  "inFlight (loadUserDataFinish out s) = inFlight s"
  by (simp_all add: loadUserDataFinish_def)

text \<open>Histories that grow at the end.\<close>

lemma begun_append: "begun (h @ k) = begun h @ begun k"
  by (induction h rule: begun.induct) simp_all

lemma waiting_snoc:
  "waiting (h @ [Begin e]) = [e]" "waiting (h @ [End e]) = []"
  by (induction h rule: waiting.induct) simp_all

lemma serial_snoc_Begin: "serial h \<Longrightarrow> waiting h = [] \<Longrightarrow> serial (h @ [Begin e])"
  by (induction h rule: serial.induct) simp_all

lemma serial_snoc_End: "serial h \<Longrightarrow> waiting h = [e] \<Longrightarrow> serial (h @ [End e])"
  by (induction h rule: serial.induct) simp_all

lemma serial_waiting_length: "length (waiting h) \<le> 1"
  by (induction h rule: waiting.induct) simp_all

text \<open>
  A drain started from an idle provider ends settled, and accepts no event by itself.
\<close>

lemma drain_settles:
  "idle s \<Longrightarrow>
   settled (processNextAuthEvent s) \<and> received (processNextAuthEvent s) = received s"
proof (induction s rule: processNextAuthEvent.induct)
  case (1 s)
  from "1.prems" have m: "mountedRef s" and np: "\<not> processingAuthEventRef s"
      and nf: "inFlight s = []" and co: "coherent s"
    by (simp_all add: idle_def)
  from co nf have h: "serial (history s)" "begun (history s) = processed s"
      "waiting (history s) = []" "processed s @ authEventQueueRef s = received s"
    using m by (simp_all add: coherent_def)
  show ?case
  proof (cases "authEventQueueRef s")
    case Nil
    with m np nf co show ?thesis
      by (simp add: processNextAuthEvent.simps [of s] settled_def)
  next
    case (Cons nextEvent rest)
    let ?s1 = "s\<lparr>processingAuthEventRef := True, authEventQueueRef := rest,
                  processed := processed s @ [nextEvent],
                  history := history s @ [Begin nextEvent]\<rparr>"
    let ?s2 = "handleNow nextEvent ?s1"
    have hb: "serial (history s @ [Begin nextEvent])"
        "waiting (history s @ [Begin nextEvent]) = [nextEvent]"
        "begun (history s @ [Begin nextEvent]) = processed s @ [nextEvent]"
      using h by (simp_all add: serial_snoc_Begin waiting_snoc begun_append)
    have rc: "received s = (processed s @ [nextEvent]) @ rest"
      using h(4) Cons by simp
    show ?thesis
    proof (cases "awaitsLoad nextEvent")
      case True
      let ?s3 = "fst (loadUserDataStart ?s2)"
      let ?r = "?s3\<lparr>inFlight := inFlight ?s3 @ [(nextEvent, snd (loadUserDataStart ?s2))]\<rparr>"
      have eq: "processNextAuthEvent s = ?r"
        using Cons True m np by (simp add: processNextAuthEvent.simps [of s] Let_def)
      have "coherent ?r"
        unfolding coherent_def using hb rc nf by simp
      then have "settled ?r \<and> received ?r = received s"
        using m by (simp add: settled_def)
      with eq show ?thesis by simp
    next
      case False
      let ?s3 = "?s2\<lparr>processingAuthEventRef := False,
                      history := history ?s2 @ [End nextEvent]\<rparr>"
      have "serial ((history s @ [Begin nextEvent]) @ [End nextEvent])"
        by (rule serial_snoc_End [OF hb(1) hb(2)])
      then have he1: "serial (history s @ [Begin nextEvent, End nextEvent])" by simp
      have "waiting ((history s @ [Begin nextEvent]) @ [End nextEvent]) = []"
        by (rule waiting_snoc(2))
      then have he2: "waiting (history s @ [Begin nextEvent, End nextEvent]) = []" by simp
      have he3: "begun (history s @ [Begin nextEvent, End nextEvent]) = processed s @ [nextEvent]"
        using h(2) by (simp add: begun_append)
      note he = he1 he2 he3
      have co3: "coherent ?s3"
        unfolding coherent_def using he rc nf by simp
      have i3: "idle ?s3"
        using co3 m nf by (simp add: idle_def)
      show ?thesis
      proof (cases rest)
        case Nil
        then have "processNextAuthEvent s = ?s3"
          using Cons False m np by (simp add: processNextAuthEvent.simps [of s] Let_def)
        moreover have "settled ?s3"
          using co3 m nf Nil by (simp add: settled_def)
        ultimately show ?thesis by simp
      next
        case (Cons a as)
        have step: "processNextAuthEvent s = processNextAuthEvent ?s3"
          using \<open>authEventQueueRef s = nextEvent # rest\<close> False Cons m np
          by (simp add: processNextAuthEvent.simps [of s] Let_def)
        have "settled (processNextAuthEvent ?s3) \<and>
              received (processNextAuthEvent ?s3) = received ?s3"
          using "1.IH" [of nextEvent rest ?s1 ?s2 ?s3]
            \<open>authEventQueueRef s = nextEvent # rest\<close> False Cons m np i3
          by simp
        with step show ?thesis by simp
      qed
    qed
  qed
qed

lemma busy_no_drain:
  "processingAuthEventRef s \<Longrightarrow> processNextAuthEvent s = s"
  by (simp add: processNextAuthEvent.simps [of s])

lemma unmounted_no_drain:
  "\<not> mountedRef s \<Longrightarrow> processNextAuthEvent s = s"
  by (simp add: processNextAuthEvent.simps [of s])

lemma queue_inv_arrival: "queue_inv s \<Longrightarrow> queue_inv (onAuthStateChange e s)"
proof (cases "mountedRef s")
  case False
  assume "queue_inv s"
  with False show ?thesis by (simp add: onAuthStateChange_def)
next
  case True
  assume inv: "queue_inv s"
  let ?s1 = "immediateUpdate e s"
  let ?s' = "?s1\<lparr>authEventQueueRef := authEventQueueRef ?s1 @ [e],
                  received := received ?s1 @ [e]\<rparr>"
  from inv True have st: "settled s" and co: "coherent s"
    by (simp_all add: queue_inv_def)
  from co True have co': "coherent ?s'"
    by (auto simp: coherent_def)
  have eq: "onAuthStateChange e s = processNextAuthEvent ?s'"
    using True by (simp add: onAuthStateChange_def Let_def)
  show ?thesis
  proof (cases "processingAuthEventRef s")
    case True
    then have "processNextAuthEvent ?s' = ?s'"
      by (simp add: busy_no_drain)
    moreover have "settled ?s'"
      using st co' True \<open>mountedRef s\<close> by (simp add: settled_def)
    ultimately show ?thesis
      using eq co' \<open>mountedRef s\<close> by (simp add: queue_inv_def)
  next
    case False
    with st have "inFlight s = []" by (simp add: settled_def)
    with False co' \<open>mountedRef s\<close> have "idle ?s'"
      by (simp add: idle_def)
    from drain_settles [OF this] eq show ?thesis
      by (simp add: queue_inv_def settled_def)
  qed
qed

lemma queue_inv_resumeHandler:
  assumes inv: "queue_inv s" and w: "w \<in> set (inFlight s)"
  shows "queue_inv (resumeHandler w out s)"
proof -
  from inv have co: "coherent s" by (simp add: queue_inv_def)
  then have len: "length (inFlight s) \<le> 1"
    using serial_waiting_length [of "history s"]
    by (simp add: coherent_def flip: length_map [of fst "inFlight s"])
  with w have one: "inFlight s = [w]"
    by (cases "inFlight s") auto
  with co have wt: "waiting (history s) = [fst w]" by (simp add: coherent_def)
  define s0 where "s0 = (if snd w then loadUserDataFinish out s else s)"
  have fr: "mountedRef s0 = mountedRef s" "authEventQueueRef s0 = authEventQueueRef s"
      "received s0 = received s" "processed s0 = processed s" "history s0 = history s"
      "inFlight s0 = inFlight s"
    by (simp_all add: s0_def)
  define s1 where "s1 = s0\<lparr>inFlight := remove1 w (inFlight s0),
      processingAuthEventRef := False, history := history s0 @ [End (fst w)]\<rparr>"
  have res: "resumeHandler w out s =
      (if length (authEventQueueRef s1) > 0 then processNextAuthEvent s1 else s1)"
    by (simp add: resumeHandler_def Let_def s0_def s1_def)
  have f1: "inFlight s1 = []" "\<not> processingAuthEventRef s1"
      "mountedRef s1 = mountedRef s" "authEventQueueRef s1 = authEventQueueRef s"
      "received s1 = received s" "processed s1 = processed s"
      "history s1 = history s @ [End (fst w)]"
    using one by (simp_all add: s1_def fr)
  from co have se: "serial (history s @ [End (fst w)])"
    using wt by (simp add: coherent_def serial_snoc_End)
  from co se have co1: "coherent s1"
    by (simp add: coherent_def f1 waiting_snoc begun_append)
  show ?thesis
  proof (cases "mountedRef s")
    case False
    with inv have "authEventQueueRef s = []" by (simp add: queue_inv_def)
    then have "resumeHandler w out s = s1"
      by (simp add: res f1)
    with co1 f1 False \<open>authEventQueueRef s = []\<close> show ?thesis
      by (simp add: queue_inv_def)
  next
    case True
    with co1 f1 have i: "idle s1" by (simp add: idle_def)
    show ?thesis
    proof (cases "authEventQueueRef s")
      case Nil
      then have "resumeHandler w out s = s1"
        by (simp add: res f1)
      moreover have "settled s1"
        using co1 f1 True Nil by (simp add: settled_def)
      ultimately show ?thesis
        using co1 f1 True by (simp add: queue_inv_def)
    next
      case (Cons a as)
      then have "resumeHandler w out s = processNextAuthEvent s1"
        by (simp add: res f1)
      with drain_settles [OF i] show ?thesis
        by (simp add: queue_inv_def settled_def)
    qed
  qed
qed

lemma queue_inv_unmount: "queue_inv s \<Longrightarrow> queue_inv (unmount s)"
  by (simp add: queue_inv_def unmount_def coherent_def)

lemma reachable_queue_inv: "reachable s \<Longrightarrow> queue_inv s"
proof (induction rule: reachable.induct)
  case start
  show ?case by (simp add: queue_inv_def settled_def coherent_def initialProvider_def)
next
  case (arrival s e)
  then show ?case by (simp add: queue_inv_arrival)
next
  case (resumption s w out)
  then show ?case by (simp add: queue_inv_resumeHandler)
next
  case (cleanup s)
  then show ?case by (simp add: queue_inv_unmount)
qed

lemma busy_arrival:
  "mountedRef t \<Longrightarrow> processingAuthEventRef t \<Longrightarrow>
   onAuthStateChange e t =
     (immediateUpdate e t)\<lparr>authEventQueueRef := authEventQueueRef t @ [e],
                             received := received t @ [e]\<rparr>"
  by (simp add: onAuthStateChange_def Let_def busy_no_drain)

lemma arrival_received:
  assumes inv: "queue_inv s" and m: "mountedRef s"
  shows "received (onAuthStateChange e s) = received s @ [e] \<and>
         mountedRef (onAuthStateChange e s)"
proof (cases "processingAuthEventRef s")
  case True
  with m show ?thesis by (simp add: busy_arrival)
next
  case False
  let ?s1 = "immediateUpdate e s"
  let ?s' = "?s1\<lparr>authEventQueueRef := authEventQueueRef ?s1 @ [e],
                  received := received ?s1 @ [e]\<rparr>"
  from inv m have st: "settled s" and co: "coherent s" by (simp_all add: queue_inv_def)
  from co m have "coherent ?s'" by (auto simp: coherent_def)
  moreover from st False have "inFlight s = []" by (simp add: settled_def)
  ultimately have "idle ?s'" using False m by (simp add: idle_def)
  from drain_settles [OF this] m show ?thesis
    by (simp add: onAuthStateChange_def Let_def settled_def)
qed

text \<open>
  C7 (as the code has it). In every state the provider reaches through arrivals of
  events, resumptions of waiting handlers and the unmount cleanup, the handlers of the
  drain are serial: each one ends before the next begins, so at most one event is being
  handled by the drain, and the events handled are an initial part of the events
  received, in arrival order. While the provider is mounted, the flag is set exactly
  when a handler is waiting, the events taken from the queue followed by the queue are
  the events received, so none is skipped or reordered, and an event only stays queued
  while a handler is waiting. In any state \<open>t\<close> whatever, a call of the drain while the
  flag is set changes nothing, and an event arriving while the flag is set gets its
  immediate update of the session and user states at once, outside the queue, and is
  appended to the queue, with nothing taken from it. The unmount cleanup discards the
  queue, and an unmounted provider ignores events.
\<close>

theorem C7_auth_queue_serialised:
  assumes r: "reachable s"
  shows "serial (history s) \<and> begun (history s) = processed s \<and>
         map fst (inFlight s) = waiting (history s) \<and> length (inFlight s) \<le> 1 \<and>
         (\<exists>rest. received s = processed s @ rest) \<and>
         (mountedRef s \<longrightarrow>
            (processingAuthEventRef s \<longleftrightarrow> inFlight s \<noteq> []) \<and>
            processed s @ authEventQueueRef s = received s \<and>
            (inFlight s = [] \<longrightarrow> authEventQueueRef s = []) \<and>
            received (onAuthStateChange e s) = received s @ [e] \<and>
            processed (onAuthStateChange e s) @ authEventQueueRef (onAuthStateChange e s) =
              received s @ [e]) \<and>
         (processingAuthEventRef t \<longrightarrow> processNextAuthEvent t = t) \<and>
         (mountedRef t \<and> processingAuthEventRef t \<longrightarrow>
            onAuthStateChange e t =
              (immediateUpdate e t)\<lparr>authEventQueueRef := authEventQueueRef t @ [e],
                                      received := received t @ [e]\<rparr> \<and>
            processed (onAuthStateChange e t) = processed t \<and>
            history (onAuthStateChange e t) = history t \<and>
            (event e = ''SIGNED_IN'' \<longrightarrow>
               authSession (onAuthStateChange e t) = session e \<and>
               authUser (onAuthStateChange e t) = sessionUser (session e)) \<and>
            (event e = ''SIGNED_OUT'' \<or> event e = ''USER_DELETED'' \<longrightarrow>
               authSession (onAuthStateChange e t) = None \<and>
               authUser (onAuthStateChange e t) = None \<and>
               authProfile (onAuthStateChange e t) = None \<and>
               \<not> loadingRef (onAuthStateChange e t))) \<and>
         (\<not> mountedRef t \<longrightarrow> onAuthStateChange e t = t) \<and>
         authEventQueueRef (unmount t) = [] \<and> \<not> mountedRef (unmount t) \<and>
         processed (unmount t) = processed t \<and> received (unmount t) = received t"
proof -
  from r have inv: "queue_inv s" by (rule reachable_queue_inv)
  then have co: "coherent s" by (simp add: queue_inv_def)
  have 1: "serial (history s) \<and> begun (history s) = processed s \<and>
         map fst (inFlight s) = waiting (history s) \<and> (\<exists>rest. received s = processed s @ rest)"
    using co by (simp add: coherent_def)
  have 2: "length (inFlight s) \<le> 1"
    using co serial_waiting_length [of "history s"]
    by (simp add: coherent_def flip: length_map [of fst "inFlight s"])
  have 3: "mountedRef s \<longrightarrow>
            (processingAuthEventRef s \<longleftrightarrow> inFlight s \<noteq> []) \<and>
            processed s @ authEventQueueRef s = received s \<and>
            (inFlight s = [] \<longrightarrow> authEventQueueRef s = []) \<and>
            received (onAuthStateChange e s) = received s @ [e] \<and>
            processed (onAuthStateChange e s) @ authEventQueueRef (onAuthStateChange e s) =
              received s @ [e]"
  proof
    assume m: "mountedRef s"
    from inv m have st: "settled s" by (simp add: queue_inv_def)
    from arrival_received [OF inv m, of e]
    have a: "received (onAuthStateChange e s) = received s @ [e]"
        and m': "mountedRef (onAuthStateChange e s)" by simp_all
    from r have "reachable (onAuthStateChange e s)" by (rule reachable.arrival)
    then have "queue_inv (onAuthStateChange e s)" by (rule reachable_queue_inv)
    with m' have "processed (onAuthStateChange e s) @ authEventQueueRef (onAuthStateChange e s) =
        received (onAuthStateChange e s)"
      by (simp add: queue_inv_def coherent_def)
    with a st m co show "(processingAuthEventRef s \<longleftrightarrow> inFlight s \<noteq> []) \<and>
            processed s @ authEventQueueRef s = received s \<and>
            (inFlight s = [] \<longrightarrow> authEventQueueRef s = []) \<and>
            received (onAuthStateChange e s) = received s @ [e] \<and>
            processed (onAuthStateChange e s) @ authEventQueueRef (onAuthStateChange e s) =
              received s @ [e]"
      by (simp add: settled_def coherent_def)
  qed
  have 4: "processingAuthEventRef t \<longrightarrow> processNextAuthEvent t = t"
    by (simp add: busy_no_drain)
  have 5: "mountedRef t \<and> processingAuthEventRef t \<longrightarrow>
            onAuthStateChange e t =
              (immediateUpdate e t)\<lparr>authEventQueueRef := authEventQueueRef t @ [e],
                                      received := received t @ [e]\<rparr> \<and>
            processed (onAuthStateChange e t) = processed t \<and>
            history (onAuthStateChange e t) = history t \<and>
            (event e = ''SIGNED_IN'' \<longrightarrow>
               authSession (onAuthStateChange e t) = session e \<and>
               authUser (onAuthStateChange e t) = sessionUser (session e)) \<and>
            (event e = ''SIGNED_OUT'' \<or> event e = ''USER_DELETED'' \<longrightarrow>
               authSession (onAuthStateChange e t) = None \<and>
               authUser (onAuthStateChange e t) = None \<and>
               authProfile (onAuthStateChange e t) = None \<and>
               \<not> loadingRef (onAuthStateChange e t))"
    by (auto simp: busy_arrival immediateUpdate_def resetStates_def)
  have 6: "\<not> mountedRef t \<longrightarrow> onAuthStateChange e t = t"
    by (simp add: onAuthStateChange_def)
  have 7: "authEventQueueRef (unmount t) = [] \<and> \<not> mountedRef (unmount t) \<and>
         processed (unmount t) = processed t \<and> received (unmount t) = received t"
    by (simp add: unmount_def)
  from 1 2 3 4 5 6 7 show ?thesis by blast
qed

text \<open>The run of \<open>busyProvider\<close>, state by state.\<close>

lemma awaitsLoad_examples:
  "awaitsLoad signedIn" "\<not> awaitsLoad signedOut" "\<not> awaitsLoad tokenRefreshed"
  by (simp_all add: awaitsLoad_def sessionUser_def signedIn_def signedOut_def
      tokenRefreshed_def)

lemma waitingProvider_eq:
  "waitingProvider =
     \<lparr>authUser = Some ''ada@x.com'',
      authSession = Some \<lparr>session_user = Some ''ada@x.com''\<rparr>,
      authProfile = None, authRoles = [defaultRole],
      authPermissions = {''basic_access''}, authIsLoading = True, loadingRef = True,
      mountedRef = True, processingAuthEventRef = True, authEventQueueRef = [],
      received = [signedIn], processed = [signedIn], history = [Begin signedIn],
      inFlight = [(signedIn, True)]\<rparr>"
proof -
  have ev: "event signedIn = ''SIGNED_IN''"
      "session signedIn = Some \<lparr>session_user = Some ''ada@x.com''\<rparr>"
    by (simp_all add: signedIn_def)
  show ?thesis
    by (simp add: waitingProvider_def onAuthStateChange_def initialProvider_def
        immediateUpdate_def handleNow_def loadUserDataStart_def sessionUser_def
        processNextAuthEvent.simps awaitsLoad_examples ev Let_def)
qed

lemma signedOut_arrival_eq:
  "onAuthStateChange signedOut waitingProvider =
     \<lparr>authUser = None, authSession = None, authProfile = None, authRoles = [],
      authPermissions = {}, authIsLoading = False, loadingRef = False,
      mountedRef = True, processingAuthEventRef = True, authEventQueueRef = [signedOut],
      received = [signedIn, signedOut], processed = [signedIn], history = [Begin signedIn],
      inFlight = [(signedIn, True)]\<rparr>"
proof -
  have ev: "event signedOut = ''SIGNED_OUT''" by (simp add: signedOut_def)
  show ?thesis
    by (simp add: waitingProvider_eq busy_arrival immediateUpdate_def resetStates_def ev)
qed

lemma busyProvider_eq:
  "busyProvider =
     \<lparr>authUser = None, authSession = None, authProfile = None, authRoles = [],
      authPermissions = {}, authIsLoading = False, loadingRef = False,
      mountedRef = True, processingAuthEventRef = True,
      authEventQueueRef = [signedOut, tokenRefreshed],
      received = [signedIn, signedOut, tokenRefreshed], processed = [signedIn],
      history = [Begin signedIn], inFlight = [(signedIn, True)]\<rparr>"
proof -
  have ev: "event tokenRefreshed = ''TOKEN_REFRESHED''" by (simp add: tokenRefreshed_def)
  show ?thesis
    by (simp add: busyProvider_def signedOut_arrival_eq busy_arrival immediateUpdate_def ev)
qed

lemma resumeHandler_busyProvider:
  "resumeHandler (signedIn, True) noWrites busyProvider =
     \<lparr>authUser = None, authSession = session tokenRefreshed, authProfile = None,
      authRoles = [], authPermissions = {}, authIsLoading = False, loadingRef = False,
      mountedRef = True, processingAuthEventRef = False, authEventQueueRef = [],
      received = [signedIn, signedOut, tokenRefreshed],
      processed = [signedIn, signedOut, tokenRefreshed],
      history = [Begin signedIn, End signedIn, Begin signedOut, End signedOut,
                 Begin tokenRefreshed, End tokenRefreshed],
      inFlight = []\<rparr>"
proof -
  have ev: "event signedOut = ''SIGNED_OUT''" "event tokenRefreshed = ''TOKEN_REFRESHED''"
    by (simp_all add: signedOut_def tokenRefreshed_def)
  have 2: "processNextAuthEvent
       \<lparr>authUser = None, authSession = None, authProfile = None, authRoles = [],
        authPermissions = {}, authIsLoading = False, loadingRef = False,
        mountedRef = True, processingAuthEventRef = False,
        authEventQueueRef = [tokenRefreshed],
        received = [signedIn, signedOut, tokenRefreshed],
        processed = [signedIn, signedOut],
        history = [Begin signedIn, End signedIn, Begin signedOut, End signedOut],
        inFlight = []\<rparr> =
     \<lparr>authUser = None, authSession = session tokenRefreshed, authProfile = None,
      authRoles = [], authPermissions = {}, authIsLoading = False, loadingRef = False,
      mountedRef = True, processingAuthEventRef = False, authEventQueueRef = [],
      received = [signedIn, signedOut, tokenRefreshed],
      processed = [signedIn, signedOut, tokenRefreshed],
      history = [Begin signedIn, End signedIn, Begin signedOut, End signedOut,
                 Begin tokenRefreshed, End tokenRefreshed],
      inFlight = []\<rparr>"
    by (simp add: processNextAuthEvent.simps awaitsLoad_examples handleNow_def ev Let_def)
  have 1: "processNextAuthEvent
       \<lparr>authUser = None, authSession = None, authProfile = None, authRoles = [],
        authPermissions = {}, authIsLoading = False, loadingRef = False,
        mountedRef = True, processingAuthEventRef = False,
        authEventQueueRef = [signedOut, tokenRefreshed],
        received = [signedIn, signedOut, tokenRefreshed],
        processed = [signedIn],
        history = [Begin signedIn, End signedIn],
        inFlight = []\<rparr> =
     \<lparr>authUser = None, authSession = session tokenRefreshed, authProfile = None,
      authRoles = [], authPermissions = {}, authIsLoading = False, loadingRef = False,
      mountedRef = True, processingAuthEventRef = False, authEventQueueRef = [],
      received = [signedIn, signedOut, tokenRefreshed],
      processed = [signedIn, signedOut, tokenRefreshed],
      history = [Begin signedIn, End signedIn, Begin signedOut, End signedOut,
                 Begin tokenRefreshed, End tokenRefreshed],
      inFlight = []\<rparr>"
    by (subst processNextAuthEvent.simps)
       (simp add: awaitsLoad_examples handleNow_def resetStates_def ev Let_def 2)
  show ?thesis
    by (simp add: resumeHandler_def busyProvider_eq loadUserDataFinish_def noWrites_def
        Let_def 1)
qed

lemma reachable_waitingProvider: "reachable waitingProvider"
  unfolding waitingProvider_def by (intro reachable.arrival reachable.start)

lemma reachable_busyProvider: "reachable busyProvider"
  unfolding busyProvider_def by (intro reachable.arrival reachable_waitingProvider)

theorem C7_auth_queue_serialised_witness:
  "reachable busyProvider \<and> mountedRef busyProvider \<and> processingAuthEventRef busyProvider \<and>
   serial (history busyProvider) \<and>
   inFlight busyProvider = [(signedIn, True)] \<and>
   authEventQueueRef busyProvider = [signedOut, tokenRefreshed] \<and>
   processed busyProvider @ authEventQueueRef busyProvider =
     [signedIn, signedOut, tokenRefreshed] \<and>
   processNextAuthEvent busyProvider = busyProvider \<and>
   event signedOut = ''SIGNED_OUT'' \<and>
   authUser (onAuthStateChange signedOut busyProvider) = None \<and>
   processed (onAuthStateChange signedOut busyProvider) = [signedIn] \<and>
   reachable (resumeHandler (signedIn, True) noWrites busyProvider) \<and>
   mountedRef (resumeHandler (signedIn, True) noWrites busyProvider) \<and>
   inFlight (resumeHandler (signedIn, True) noWrites busyProvider) = [] \<and>
   authEventQueueRef (resumeHandler (signedIn, True) noWrites busyProvider) = [] \<and>
   processed (resumeHandler (signedIn, True) noWrites busyProvider) =
     [signedIn, signedOut, tokenRefreshed] \<and>
   serial (history (resumeHandler (signedIn, True) noWrites busyProvider)) \<and>
   \<not> mountedRef (unmount busyProvider) \<and>
   onAuthStateChange signedOut (unmount busyProvider) = unmount busyProvider"
proof -
  let ?R = "resumeHandler (signedIn, True) noWrites busyProvider"
  have r1: "reachable busyProvider" by (rule reachable_busyProvider)
  have "(signedIn, True) \<in> set (inFlight busyProvider)" by (simp add: busyProvider_eq)
  with r1 have r2: "reachable ?R" by (rule reachable.resumption)
  have m: "mountedRef busyProvider" "processingAuthEventRef busyProvider"
      "inFlight busyProvider = [(signedIn, True)]"
      "received busyProvider = [signedIn, signedOut, tokenRefreshed]"
      "authEventQueueRef busyProvider = [signedOut, tokenRefreshed]"
      "processed busyProvider = [signedIn]"
    by (simp_all add: busyProvider_eq)
  have n: "mountedRef ?R" "inFlight ?R = []"
      "received ?R = [signedIn, signedOut, tokenRefreshed]"
    by (simp_all add: resumeHandler_busyProvider)
  have ev: "event signedOut = ''SIGNED_OUT''" by (simp add: signedOut_def)
  note A = C7_auth_queue_serialised [OF r1, of signedOut busyProvider]
  note B = C7_auth_queue_serialised [OF r2, of signedOut "unmount busyProvider"]
  from A have a0: "serial (history busyProvider)" by blast
  from A m have a1: "processNextAuthEvent busyProvider = busyProvider" by blast
  from A m have "processed busyProvider @ authEventQueueRef busyProvider = received busyProvider"
    by blast
  with m have a2: "processed busyProvider @ authEventQueueRef busyProvider =
      [signedIn, signedOut, tokenRefreshed]" by simp
  from A m ev have a3: "authUser (onAuthStateChange signedOut busyProvider) = None" by blast
  from A m have "processed (onAuthStateChange signedOut busyProvider) = processed busyProvider"
    by blast
  with m have a4: "processed (onAuthStateChange signedOut busyProvider) = [signedIn]" by simp
  from B have b0: "serial (history ?R)" by blast
  from B n have b1: "authEventQueueRef ?R = []" by blast
  from B n have "processed ?R @ authEventQueueRef ?R = received ?R" by blast
  with b1 n have b2: "processed ?R = [signedIn, signedOut, tokenRefreshed]" by simp
  from A have b3: "\<not> mountedRef (unmount busyProvider)" by blast
  with B have b4: "onAuthStateChange signedOut (unmount busyProvider) = unmount busyProvider"
    by blast
  from r1 r2 m n ev a0 a1 a2 a3 a4 b0 b1 b2 b3 b4 show ?thesis by blast
qed

text \<open>
  C7 as stated fails in two ways. A sign-out that arrives while the handler of a sign-in
  is waiting resets the user and session states at once, before it is taken from the
  queue, so the two events are acted on in overlap. And the events still queued when the
  provider unmounts are discarded: they stay received and are never handled, also when
  the waiting handler resumes.
\<close>

theorem C7_counterexample:
  "reachable (onAuthStateChange signedOut waitingProvider) \<and>
   inFlight waitingProvider = [(signedIn, True)] \<and>
   authUser waitingProvider = Some ''ada@x.com'' \<and>
   inFlight (onAuthStateChange signedOut waitingProvider) = [(signedIn, True)] \<and>
   authUser (onAuthStateChange signedOut waitingProvider) = None \<and>
   authEventQueueRef (onAuthStateChange signedOut waitingProvider) = [signedOut] \<and>
   processed (onAuthStateChange signedOut waitingProvider) = [signedIn] \<and>
   reachable (resumeHandler (signedIn, True) noWrites (unmount busyProvider)) \<and>
   received (resumeHandler (signedIn, True) noWrites (unmount busyProvider)) =
     [signedIn, signedOut, tokenRefreshed] \<and>
   processed (resumeHandler (signedIn, True) noWrites (unmount busyProvider)) = [signedIn] \<and>
   authEventQueueRef (resumeHandler (signedIn, True) noWrites (unmount busyProvider)) = [] \<and>
   inFlight (resumeHandler (signedIn, True) noWrites (unmount busyProvider)) = []"
proof -
  have r0: "reachable (onAuthStateChange signedOut waitingProvider)"
    by (intro reachable.arrival reachable_waitingProvider)
  have "reachable (unmount busyProvider)"
    by (intro reachable.cleanup reachable_busyProvider)
  moreover have "(signedIn, True) \<in> set (inFlight (unmount busyProvider))"
    by (simp add: busyProvider_eq unmount_def)
  ultimately have r1: "reachable (resumeHandler (signedIn, True) noWrites (unmount busyProvider))"
    by (rule reachable.resumption)
  have u: "resumeHandler (signedIn, True) noWrites (unmount busyProvider) =
      (unmount busyProvider)\<lparr>inFlight := [], history := [Begin signedIn, End signedIn]\<rparr>"
    by (simp add: resumeHandler_def unmount_def busyProvider_eq loadUserDataFinish_def Let_def)
  have c1: "inFlight waitingProvider = [(signedIn, True)]"
      "authUser waitingProvider = Some ''ada@x.com''"
    by (simp_all add: waitingProvider_eq)
  have c2: "inFlight (onAuthStateChange signedOut waitingProvider) = [(signedIn, True)]"
      "authUser (onAuthStateChange signedOut waitingProvider) = None"
      "authEventQueueRef (onAuthStateChange signedOut waitingProvider) = [signedOut]"
      "processed (onAuthStateChange signedOut waitingProvider) = [signedIn]"
    by (simp_all add: signedOut_arrival_eq)
  have c3: "received (resumeHandler (signedIn, True) noWrites (unmount busyProvider)) =
        [signedIn, signedOut, tokenRefreshed]"
      "processed (resumeHandler (signedIn, True) noWrites (unmount busyProvider)) = [signedIn]"
      "authEventQueueRef (resumeHandler (signedIn, True) noWrites (unmount busyProvider)) = []"
      "inFlight (resumeHandler (signedIn, True) noWrites (unmount busyProvider)) = []"
    unfolding u by (simp_all add: unmount_def busyProvider_eq)
  from r0 r1 c1 c2 c3 show ?thesis by blast
qed


end
